theory Spec2Isabelle
  imports Complex_Main
begin

section \<open>Python values and exceptions\<close>

text \<open>
  The invoice generator of \<^verbatim>\<open>B-I.py\<close> keeps every record as a Python dict and does
  its arithmetic with \<^verbatim>\<open>decimal.Decimal\<close> under the default context
  (precision 28, ROUND_HALF_EVEN, Emin = -999999, Emax = 999999, clamp = 0, traps on
  InvalidOperation, DivisionByZero and Overflow).

  A \<^verbatim>\<open>Decimal\<close> is the triple the library itself stores: sign, coefficient and
  exponent, or an infinity, or a (quiet or signalling) NaN with its payload. The
  coefficient is kept as a natural number instead of a digit string.
\<close>

datatype decimal =
    Fin bool nat int
  | Inf bool
  | NaN bool bool nat

text \<open>
  The values a dict entry holds in this model: \<^verbatim>\<open>None\<close>, a \<^verbatim>\<open>str\<close> (of one-byte
  code points), an \<^verbatim>\<open>int\<close>, or a \<^verbatim>\<open>Decimal\<close>. Binary floats occur in the program
  only as the two literals \<^verbatim>\<open>0.09\<close> and \<^verbatim>\<open>0.18\<close>, which are modelled apart.
\<close>

datatype pyval =
    PNone
  | PStr string
  | PInt int
  | PDec decimal

datatype pyerr =
    KeyError string
  | TypeError
  | InvalidOperation
  | Overflow

fun exc_name :: "pyerr \<Rightarrow> string" where
  "exc_name (KeyError k) = ''KeyError''"
| "exc_name TypeError = ''TypeError''"
| "exc_name InvalidOperation = ''InvalidOperation''"
| "exc_name Overflow = ''Overflow''"

type_synonym pydict = "string \<rightharpoonup> pyval"

definition getitem :: "pydict \<Rightarrow> string \<Rightarrow> pyerr + pyval" where
  "getitem d k = (case d k of None \<Rightarrow> Inl (KeyError k) | Some v \<Rightarrow> Inr v)"

definition bindE :: "pyerr + 'a \<Rightarrow> ('a \<Rightarrow> pyerr + 'b) \<Rightarrow> pyerr + 'b" where
  "bindE x f = (case x of Inl e \<Rightarrow> Inl e | Inr v \<Rightarrow> f v)"

section \<open>Decimal arithmetic in the default context\<close>

definition prec :: nat where "prec = 28"
definition Emax :: int where "Emax = 999999"
definition Emin :: int where "Emin = - 999999"
definition Etiny :: int where "Etiny = Emin - int prec + 1"
definition Etop :: int where "Etop = Emax - int prec + 1"

text \<open>\<^verbatim>\<open>len(str(n))\<close> for a coefficient.\<close>

fun ndigits :: "nat \<Rightarrow> nat" where
  "ndigits n = (if n < 10 then 1 else Suc (ndigits (n div 10)))"

declare ndigits.simps [simp del]

text \<open>
  ROUND_HALF_EVEN on a coefficient \<open>c\<close> that loses its last \<open>k\<close> digits: the kept part
  is incremented when the dropped part is above one half, or exactly one half with an
  odd kept part.
\<close>

definition round_half_even :: "nat \<Rightarrow> nat \<Rightarrow> nat" where
  "round_half_even c k =
     (let q = c div 10 ^ k; r = c mod 10 ^ k
      in if 2 * r > 10 ^ k then q + 1
         else if 2 * r = 10 ^ k then (if q mod 2 = 1 then q + 1 else q)
         else q)"

text \<open>
  \<^verbatim>\<open>Decimal._fix\<close>: round a result to the context. A zero only has its exponent
  clamped; a number whose adjusted exponent exceeds Emax raises Overflow (the trap is
  set); a number with more than 28 digits, or below the subnormal limit, is rounded
  half-even.
\<close>

fun dec_fix :: "decimal \<Rightarrow> pyerr + decimal" where
  "dec_fix (Inf s) = Inr (Inf s)"
| "dec_fix (NaN s sg p) = Inr (NaN s sg (p mod 10 ^ prec))"
| "dec_fix (Fin s c e) =
     (if c = 0 then Inr (Fin s 0 (min (max e Etiny) Emax))
      else
        let exp_min = int (ndigits c) + e - int prec in
        if exp_min > Etop then Inl Overflow
        else
          let exp_min = max exp_min Etiny in
          if e < exp_min then
            let coeff = round_half_even c (nat (exp_min - e));
                exp_min = (if ndigits coeff > prec then exp_min + 1 else exp_min);
                coeff = (if ndigits coeff > prec then coeff div 10 else coeff)
            in if exp_min > Etop then Inl Overflow else Inr (Fin s coeff exp_min)
          else Inr (Fin s c e))"

text \<open>
  \<^verbatim>\<open>Decimal._check_nans\<close>: a signalling NaN operand raises InvalidOperation, a quiet
  one is the result (the first operand's first).
\<close>

fun is_nan :: "decimal \<Rightarrow> bool" where
  "is_nan (NaN s sg p) = True"
| "is_nan d = False"

fun is_snan :: "decimal \<Rightarrow> bool" where
  "is_snan (NaN s sg p) = sg"
| "is_snan d = False"

definition check_nans :: "decimal \<Rightarrow> decimal \<Rightarrow> pyerr + decimal" where
  "check_nans a b =
     (if is_snan a then Inl InvalidOperation
      else if is_snan b then Inl InvalidOperation
      else if is_nan a then dec_fix a
      else dec_fix b)"

fun is_zero :: "decimal \<Rightarrow> bool" where
  "is_zero (Fin s c e) = (c = 0)"
| "is_zero d = False"

fun sign_of :: "decimal \<Rightarrow> bool" where
  "sign_of (Fin s c e) = s"
| "sign_of (Inf s) = s"
| "sign_of (NaN s sg p) = s"

text \<open>\<^verbatim>\<open>Decimal.__mul__\<close>.\<close>

fun dec_mul :: "decimal \<Rightarrow> decimal \<Rightarrow> pyerr + decimal" where
  "dec_mul (Fin s1 c1 e1) (Fin s2 c2 e2) = dec_fix (Fin (s1 \<noteq> s2) (c1 * c2) (e1 + e2))"
| "dec_mul a b =
     (if is_nan a then check_nans a b
      else if is_nan b then check_nans a b
      else if is_zero a then Inl InvalidOperation
      else if is_zero b then Inl InvalidOperation
      else Inr (Inf (sign_of a \<noteq> sign_of b)))"

text \<open>
  \<^verbatim>\<open>Decimal.__add__\<close>: the operands are aligned to the smaller exponent and added as
  integers; a zero sum is negative only when both operands are.
\<close>

definition add_exact :: "bool \<Rightarrow> nat \<Rightarrow> int \<Rightarrow> bool \<Rightarrow> nat \<Rightarrow> int \<Rightarrow> decimal" where
  "add_exact s1 c1 e1 s2 c2 e2 =
     (let e = min e1 e2;
          a = (if s1 then - 1 else 1) * int (c1 * 10 ^ nat (e1 - e));
          b = (if s2 then - 1 else 1) * int (c2 * 10 ^ nat (e2 - e));
          r = a + b
      in if r = 0 then Fin (s1 \<and> s2) 0 e
         else Fin (r < 0) (nat \<bar>r\<bar>) e)"

fun dec_add :: "decimal \<Rightarrow> decimal \<Rightarrow> pyerr + decimal" where
  "dec_add (Fin s1 c1 e1) (Fin s2 c2 e2) = dec_fix (add_exact s1 c1 e1 s2 c2 e2)"
| "dec_add a b =
     (if is_nan a then check_nans a b
      else if is_nan b then check_nans a b
      else case a of
        Inf s \<Rightarrow> (case b of
            Inf s' \<Rightarrow> (if s = s' then Inr (Inf s) else Inl InvalidOperation)
          | _ \<Rightarrow> Inr (Inf s))
      | _ \<Rightarrow> Inr b)"

fun copy_negate :: "decimal \<Rightarrow> decimal" where
  "copy_negate (Fin s c e) = Fin (\<not> s) c e"
| "copy_negate (Inf s) = Inf (\<not> s)"
| "copy_negate (NaN s sg p) = NaN (\<not> s) sg p"

text \<open>\<^verbatim>\<open>Decimal.__sub__\<close>: the NaN check on the operands, then \<open>a + (-b)\<close>.\<close>

definition dec_sub :: "decimal \<Rightarrow> decimal \<Rightarrow> pyerr + decimal" where
  "dec_sub a b =
     (if is_nan a then check_nans a b
      else if is_nan b then check_nans a b
      else dec_add a (copy_negate b))"

section \<open>Constructing a Decimal\<close>

text \<open>
  \<^verbatim>\<open>Decimal(value)\<close> is exact whatever the context. A string is stripped of
  surrounding whitespace and of underscores and then has to match the library's
  numeric-string pattern; anything else raises InvalidOperation (ConversionSyntax).
  \<^verbatim>\<open>None\<close> raises TypeError. The exponent of a literal is unbounded here, as in
  the library's reference implementation in Python; its C implementation refuses
  exponents beyond about \<open>10 ^ 18\<close> in absolute value.
\<close>

definition is_space :: "char \<Rightarrow> bool" where
  "is_space c = ((of_char c :: nat) \<in> set [9, 10, 11, 12, 13, 28, 29, 30, 31, 32, 133, 160])"

definition is_digit :: "char \<Rightarrow> bool" where
  "is_digit c = (48 \<le> (of_char c :: nat) \<and> (of_char c :: nat) \<le> 57)"

definition lower :: "char \<Rightarrow> char" where
  "lower c =
     (let n = (of_char c :: nat)
      in if 65 \<le> n \<and> n \<le> 90 then char_of (n + 32) else c)"

definition strip :: "string \<Rightarrow> string" where
  "strip s = rev (dropWhile is_space (rev (dropWhile is_space s)))"

definition digits_val :: "string \<Rightarrow> nat" where
  "digits_val ds = foldl (\<lambda>a c. 10 * a + ((of_char c :: nat) - 48)) 0 ds"

definition split_sign :: "string \<Rightarrow> bool \<times> string" where
  "split_sign t =
     (case t of
        [] \<Rightarrow> (False, [])
      | c # cs \<Rightarrow>
          if c = CHR ''-'' then (True, cs)
          else if c = CHR ''+'' then (False, cs)
          else (False, t))"

definition split_frac :: "string \<Rightarrow> string \<times> string" where
  "split_frac r =
     (case r of
        [] \<Rightarrow> ([], [])
      | c # cs \<Rightarrow>
          if c = CHR ''.'' then (takeWhile is_digit cs, dropWhile is_digit cs)
          else ([], r))"

definition parse_exp :: "string \<Rightarrow> pyerr + int" where
  "parse_exp r =
     (case r of
        [] \<Rightarrow> Inr 0
      | c # cs \<Rightarrow>
          if lower c = CHR ''e'' then
            (let (neg, ds) = split_sign cs
             in if ds = [] then Inl InvalidOperation
                else if dropWhile is_digit ds = [] then
                  Inr ((if neg then - 1 else 1) * int (digits_val ds))
                else Inl InvalidOperation)
          else Inl InvalidOperation)"

definition parse_special :: "bool \<Rightarrow> string \<Rightarrow> pyerr + decimal" where
  "parse_special neg r =
     (let l = map lower r
      in if l = ''inf'' then Inr (Inf neg)
         else if l = ''infinity'' then Inr (Inf neg)
         else if take 3 l = ''nan'' \<and> dropWhile is_digit (drop 3 l) = [] then
           Inr (NaN neg False (digits_val (drop 3 l)))
         else if take 4 l = ''snan'' \<and> dropWhile is_digit (drop 4 l) = [] then
           Inr (NaN neg True (digits_val (drop 4 l)))
         else Inl InvalidOperation)"

definition Decimal_str :: "string \<Rightarrow> pyerr + decimal" where
  "Decimal_str v =
     (let (neg, r) = split_sign (filter (\<lambda>c. c \<noteq> CHR ''_'') (strip v));
          intpart = takeWhile is_digit r;
          (fracpart, r2) = split_frac (dropWhile is_digit r)
      in if intpart @ fracpart = [] then parse_special neg r
         else bindE (parse_exp r2)
                (\<lambda>ex. Inr (Fin neg (digits_val (intpart @ fracpart)) (ex - int (length fracpart)))))"

definition Decimal_int :: "int \<Rightarrow> decimal" where
  "Decimal_int n = Fin (n < 0) (nat \<bar>n\<bar>) 0"

fun Decimal :: "pyval \<Rightarrow> pyerr + decimal" where
  "Decimal PNone = Inl TypeError"
| "Decimal (PStr v) = Decimal_str v"
| "Decimal (PInt n) = Inr (Decimal_int n)"
| "Decimal (PDec d) = Inr d"

text \<open>
  A finite binary float is its integer ratio \<open>n / 2 ^ k\<close> in lowest terms, as
  \<^verbatim>\<open>float.as_integer_ratio\<close> returns it; \<^verbatim>\<open>Decimal(f)\<close> converts it exactly, to
  \<open>n * 5 ^ k\<close> with exponent \<open>- k\<close>. The literals \<^verbatim>\<open>0.09\<close> and \<^verbatim>\<open>0.18\<close> denote the
  doubles nearest to 9/100 and 18/100.
\<close>

definition Decimal_from_float :: "nat \<times> nat \<Rightarrow> decimal" where
  "Decimal_from_float f = Fin False (fst f * 5 ^ snd f) (- int (snd f))"

definition float_0_09 :: "nat \<times> nat" where
  "float_0_09 = (3242591731706757, 55)"

definition float_0_18 :: "nat \<times> nat" where
  "float_0_18 = (3242591731706757, 54)"

section \<open>Equality of Python values\<close>

text \<open>
  \<^verbatim>\<open>==\<close> on the values of the model. Decimals compare by numeric value, a NaN is
  equal to nothing, a signalling NaN raises InvalidOperation; an int and a Decimal
  compare through the Decimal of the int; values of different kinds are unequal.
\<close>

fun dec_eq :: "decimal \<Rightarrow> decimal \<Rightarrow> pyerr + bool" where
  "dec_eq (Fin s1 c1 e1) (Fin s2 c2 e2) =
     Inr (if c1 = 0 then c2 = 0
          else if c2 = 0 then False
          else s1 = s2 \<and> c1 * 10 ^ nat (e1 - min e1 e2) = c2 * 10 ^ nat (e2 - min e1 e2))"
| "dec_eq a b =
     (if is_snan a then Inl InvalidOperation
      else if is_snan b then Inl InvalidOperation
      else Inr (case a of Inf s \<Rightarrow> (case b of Inf s' \<Rightarrow> s = s' | _ \<Rightarrow> False) | _ \<Rightarrow> False))"

fun py_eq :: "pyval \<Rightarrow> pyval \<Rightarrow> pyerr + bool" where
  "py_eq PNone PNone = Inr True"
| "py_eq (PStr a) (PStr b) = Inr (a = b)"
| "py_eq (PInt a) (PInt b) = Inr (a = b)"
| "py_eq (PInt a) (PDec b) = dec_eq (Decimal_int a) b"
| "py_eq (PDec a) (PInt b) = dec_eq a (Decimal_int b)"
| "py_eq (PDec a) (PDec b) = dec_eq a b"
| "py_eq a b = Inr False"

section \<open>The invoice generator\<close>

record InvoiceGenerator =
  seller_details :: pydict
  billing_details :: pydict
  shipping_details :: pydict
  order_details :: pydict
  invoice_details :: pydict
  item_details :: "pydict list"
  reverse_charge :: string
  signature_image_path :: string
  output_filename :: string

text \<open>
  Line 181: \<^verbatim>\<open>Decimal(item['unit_price']) * Decimal(item['quantity']) - Decimal(item['discount'])\<close>,
  evaluated left to right; the first exception ends it.
\<close>

definition net_amount_expr :: "pydict \<Rightarrow> pyerr + decimal" where
  "net_amount_expr item =
     bindE (getitem item ''unit_price'') (\<lambda>up.
     bindE (Decimal up) (\<lambda>p.
     bindE (getitem item ''quantity'') (\<lambda>qv.
     bindE (Decimal qv) (\<lambda>q.
     bindE (dec_mul p q) (\<lambda>pq.
     bindE (getitem item ''discount'') (\<lambda>dv.
     bindE (Decimal dv) (\<lambda>d.
     dec_sub pq d)))))))"

text \<open>
  Lines 184 to 187: the condition of the \<^verbatim>\<open>if\<close>. \<^verbatim>\<open>and\<close> does not evaluate its
  second operand when the first is false.
\<close>

definition same_state_and_city :: "pydict \<Rightarrow> pydict \<Rightarrow> pyerr + bool" where
  "same_state_and_city billing shipping =
     bindE (getitem billing ''state'') (\<lambda>bs.
     bindE (getitem shipping ''state'') (\<lambda>ss.
     bindE (py_eq bs ss) (\<lambda>same_state.
     if same_state then
       bindE (getitem billing ''city'') (\<lambda>bc.
       bindE (getitem shipping ''city'') (\<lambda>sc.
       py_eq bc sc))
     else Inr False)))"

text \<open>
  Lines 188 to 193 and 195 to 200: the two branches. Each assignment mutates the dict at
  once, so an exception leaves the assignments made before it. \<open>net\<close> is the value just
  stored under \<^verbatim>\<open>'net_amount'\<close>, which the source reads back from the dict.
\<close>

definition cgst_branch :: "decimal \<Rightarrow> pydict \<Rightarrow> pydict \<times> pyerr option" where
  "cgst_branch net item =
     (let item = item(''tax_type'' \<mapsto> PStr ''CGST'');
          item = item(''tax_rate'' \<mapsto> PDec (Decimal_from_float float_0_09))
      in case dec_mul net (Decimal_from_float float_0_09) of
           Inl e \<Rightarrow> (item, Some e)
         | Inr tax_amount \<Rightarrow>
      let item = item(''tax_amount'' \<mapsto> PDec tax_amount)
      in case dec_add net tax_amount of
           Inl e \<Rightarrow> (item, Some e)
         | Inr total_amount \<Rightarrow>
      let item = item(''total_amount'' \<mapsto> PDec total_amount)
      in case dec_mul net (Decimal_from_float float_0_09) of
           Inl e \<Rightarrow> (item, Some e)
         | Inr tax_amount_sgst \<Rightarrow>
      let item = item(''tax_amount_sgst'' \<mapsto> PDec tax_amount_sgst)
      in case dec_add net tax_amount_sgst of
           Inl e \<Rightarrow> (item, Some e)
         | Inr total_amount_sgst \<Rightarrow>
      (item(''total_amount_sgst'' \<mapsto> PDec total_amount_sgst), None))"

definition igst_branch :: "decimal \<Rightarrow> pydict \<Rightarrow> pydict \<times> pyerr option" where
  "igst_branch net item =
     (let item = item(''tax_type'' \<mapsto> PStr ''IGST'');
          item = item(''tax_rate'' \<mapsto> PDec (Decimal_from_float float_0_18))
      in case dec_mul net (Decimal_from_float float_0_18) of
           Inl e \<Rightarrow> (item, Some e)
         | Inr tax_amount \<Rightarrow>
      let item = item(''tax_amount'' \<mapsto> PDec tax_amount)
      in case dec_add net tax_amount of
           Inl e \<Rightarrow> (item, Some e)
         | Inr total_amount \<Rightarrow>
      let item = item(''total_amount'' \<mapsto> PDec total_amount);
          item = item(''tax_amount_sgst'' \<mapsto> PDec (Decimal_int 0))
      in (item(''total_amount_sgst'' \<mapsto> PDec (Decimal_int 0)), None))"

text \<open>The body of the loop of \<^verbatim>\<open>_compute_item_details\<close>, for one item.\<close>

definition compute_item :: "pydict \<Rightarrow> pydict \<Rightarrow> pydict \<Rightarrow> pydict \<times> pyerr option" where
  "compute_item billing shipping item =
     (case net_amount_expr item of
        Inl e \<Rightarrow> (item, Some e)
      | Inr net \<Rightarrow>
          let item = item(''net_amount'' \<mapsto> PDec net)
          in case same_state_and_city billing shipping of
               Inl e \<Rightarrow> (item, Some e)
             | Inr same \<Rightarrow> if same then cgst_branch net item else igst_branch net item)"

text \<open>
  The loop over \<^verbatim>\<open>self.item_details\<close>: the items are mutated in list order, and an
  exception leaves the later items as they were.
\<close>

fun compute_items :: "pydict \<Rightarrow> pydict \<Rightarrow> pydict list \<Rightarrow> pydict list \<times> pyerr option" where
  "compute_items billing shipping [] = ([], None)"
| "compute_items billing shipping (item # items) =
     (case compute_item billing shipping item of
        (item', Some e) \<Rightarrow> (item' # items, Some e)
      | (item', None) \<Rightarrow>
          (case compute_items billing shipping items of
             (items', r) \<Rightarrow> (item' # items', r)))"

definition compute_item_details :: "InvoiceGenerator \<Rightarrow> InvoiceGenerator \<times> pyerr option" where
  "compute_item_details self =
     (case compute_items (billing_details self) (shipping_details self) (item_details self) of
        (items', r) \<Rightarrow> (self\<lparr>item_details := items'\<rparr>, r))"

text \<open>
  \<^verbatim>\<open>_create_item_details_table\<close>: the list \<^verbatim>\<open>data\<close> handed to \<^verbatim>\<open>Table\<close>, the header
  row and then one row for each item of \<^verbatim>\<open>enumerate(self.item_details)\<close>.
\<close>

definition table_header :: "pyval list" where
  "table_header =
     [PStr ''SI. No'', PStr ''Description'', PStr ''Unit Price'', PStr ''Qty'',
      PStr ''Net Amount'', PStr ''Tax Rate'', PStr ''Tax Type'', PStr ''Tax Amount'',
      PStr ''Total Amount'']"

definition item_row :: "nat \<Rightarrow> pydict \<Rightarrow> pyerr + pyval list" where
  "item_row index item =
     bindE (getitem item ''description'') (\<lambda>c1.
     bindE (getitem item ''unit_price'') (\<lambda>c2.
     bindE (getitem item ''quantity'') (\<lambda>c3.
     bindE (getitem item ''net_amount'') (\<lambda>c4.
     bindE (getitem item ''tax_rate'') (\<lambda>c5.
     bindE (getitem item ''tax_type'') (\<lambda>c6.
     bindE (getitem item ''tax_amount'') (\<lambda>c7.
     bindE (getitem item ''total_amount'') (\<lambda>c8.
     Inr [PInt (int index + 1), c1, c2, c3, c4, c5, c6, c7, c8]))))))))"

fun item_rows :: "nat \<Rightarrow> pydict list \<Rightarrow> pyerr + pyval list list" where
  "item_rows index [] = Inr []"
| "item_rows index (item # items) =
     bindE (item_row index item) (\<lambda>row.
     bindE (item_rows (Suc index) items) (\<lambda>rows.
     Inr (row # rows)))"

definition create_item_details_table :: "InvoiceGenerator \<Rightarrow> pyerr + pyval list list" where
  "create_item_details_table self =
     bindE (item_rows 0 (item_details self)) (\<lambda>rows. Inr (table_header # rows))"

text \<open>
  The grand total, written out twice in the source:
  \<^verbatim>\<open>sum([Decimal(item['total_amount']) for item in self.item_details])\<close>.
  The comprehension builds its list first; \<^verbatim>\<open>sum\<close> starts from the int 0, so the first
  addition is the reflected \<^verbatim>\<open>Decimal.__radd__\<close>, and every addition rounds to the
  context.
\<close>

fun total_amounts :: "pydict list \<Rightarrow> pyerr + decimal list" where
  "total_amounts [] = Inr []"
| "total_amounts (item # items) =
     bindE (getitem item ''total_amount'') (\<lambda>v.
     bindE (Decimal v) (\<lambda>d.
     bindE (total_amounts items) (\<lambda>ds.
     Inr (d # ds))))"

fun py_add :: "pyval \<Rightarrow> decimal \<Rightarrow> pyerr + pyval" where
  "py_add (PInt n) d = bindE (dec_add d (Decimal_int n)) (\<lambda>r. Inr (PDec r))"
| "py_add (PDec a) d = bindE (dec_add a d) (\<lambda>r. Inr (PDec r))"
| "py_add PNone d = Inl TypeError"
| "py_add (PStr v) d = Inl TypeError"

fun py_sum :: "pyval \<Rightarrow> decimal list \<Rightarrow> pyerr + pyval" where
  "py_sum acc [] = Inr acc"
| "py_sum acc (d # ds) = bindE (py_add acc d) (\<lambda>acc'. py_sum acc' ds)"

text \<open>Lines 241 to 243, in \<^verbatim>\<open>_create_total_row\<close>.\<close>

definition create_total_row_total_amount :: "InvoiceGenerator \<Rightarrow> pyerr + pyval" where
  "create_total_row_total_amount self =
     bindE (total_amounts (item_details self)) (\<lambda>ds. py_sum (PInt 0) ds)"

text \<open>Lines 255 to 257, in \<^verbatim>\<open>_create_amount_in_words\<close>.\<close>

definition create_amount_in_words_total_amount :: "InvoiceGenerator \<Rightarrow> pyerr + pyval" where
  "create_amount_in_words_total_amount self =
     bindE (total_amounts (item_details self)) (\<lambda>ds. py_sum (PInt 0) ds)"

section \<open>The sample invoice of the source\<close>

text \<open>
  The data of the \<^verbatim>\<open>__main__\<close> block, with the long address and description strings
  shortened and the two dates left out (a date is not a value of the model, and nothing
  below reads one).
\<close>

definition sample_seller_details :: pydict where
  "sample_seller_details =
     [''name'' \<mapsto> PStr ''Varasiddhi Silk Exports'',
      ''address'' \<mapsto> PStr ''*75, 3rd Cross, Lalbagh Road'',
      ''city'' \<mapsto> PStr ''BENGALURU'',
      ''state'' \<mapsto> PStr ''KARNATAKA'',
      ''pincode'' \<mapsto> PInt 560027,
      ''pan_no'' \<mapsto> PStr ''AACFV3325K'',
      ''gst_registration_no'' \<mapsto> PStr ''29AACFV3325K1ZY'']"

definition sample_billing_details :: pydict where
  "sample_billing_details =
     [''name'' \<mapsto> PStr ''Madhu B'',
      ''address'' \<mapsto> PStr ''Eurofins IT Solutions India Pvt Ltd'',
      ''city'' \<mapsto> PStr ''BENGALURU'',
      ''state'' \<mapsto> PStr ''KARNATAKA'',
      ''pincode'' \<mapsto> PInt 560037,
      ''state_ut_code'' \<mapsto> PInt 29]"

definition sample_shipping_details :: pydict where
  "sample_shipping_details =
     [''name'' \<mapsto> PStr ''Madhu B'',
      ''address'' \<mapsto> PStr ''Eurofins IT Solutions India Pvt Ltd'',
      ''city'' \<mapsto> PStr ''BENGALURU'',
      ''state'' \<mapsto> PStr ''KARNATAKA'',
      ''pincode'' \<mapsto> PInt 560037,
      ''state_ut_code'' \<mapsto> PInt 29]"

definition sample_item :: "string \<Rightarrow> string \<Rightarrow> pydict" where
  "sample_item description unit_price =
     [''description'' \<mapsto> PStr description,
      ''unit_price'' \<mapsto> PStr unit_price,
      ''quantity'' \<mapsto> PInt 1,
      ''discount'' \<mapsto> PInt 0,
      ''net_amount'' \<mapsto> PNone,
      ''tax_rate'' \<mapsto> PNone,
      ''tax_type'' \<mapsto> PNone,
      ''tax_amount'' \<mapsto> PNone,
      ''total_amount'' \<mapsto> PNone]"

definition sample_item_details :: "pydict list" where
  "sample_item_details =
     [sample_item ''Formal Shirt (SH-05-42, Navy Blue, 42)'' ''538.10'',
      sample_item ''Shipping Charges'' ''30.96'',
      sample_item ''Formal Shirt (SH-05-40, Navy Blue, 40)'' ''538.10'',
      sample_item ''Shipping Charges'' ''30.96'']"

definition sample_invoice :: InvoiceGenerator where
  "sample_invoice =
     \<lparr>seller_details = sample_seller_details,
      billing_details = sample_billing_details,
      shipping_details = sample_shipping_details,
      order_details = [''order_no'' \<mapsto> PStr ''403-3225714-7676307''],
      invoice_details =
        [''invoice_no'' \<mapsto> PStr ''IN-761'', ''invoice_details'' \<mapsto> PStr ''KA-310565025-1920''],
      item_details = sample_item_details,
      reverse_charge = ''No'',
      signature_image_path = ''signature.png'',
      output_filename = ''invoice.pdf''\<rparr>"

section \<open>The numeric value of a Decimal\<close>

fun dec_val :: "decimal \<Rightarrow> rat" where
  "dec_val (Fin s c e) = (if s then - 1 else 1) * of_nat c * power_int 10 e"
| "dec_val d = 0"

text \<open>
  A finite Decimal that the context leaves as it is: at most 28 digits, and an exponent
  between the subnormal limit and Emax.
\<close>

fun in_context :: "decimal \<Rightarrow> bool" where
  "in_context (Fin s c e) =
     (if c = 0 then Etiny \<le> e \<and> e \<le> Emax
      else ndigits c \<le> prec \<and> Etiny \<le> e \<and> int (ndigits c) + e - 1 \<le> Emax)"
| "in_context d = False"

text \<open>A finite Decimal whose absolute value is below \<open>10 ^ B\<close>.\<close>

fun mag_le :: "int \<Rightarrow> decimal \<Rightarrow> bool" where
  "mag_le B (Fin s c e) = (if c = 0 then True else int (ndigits c) + e \<le> B)"
| "mag_le B d = False"

section \<open>The grand total as the specification words it\<close>

text \<open>
  The Grand Total Aggregator of the specification (section 4.2): the sum of
  \<^verbatim>\<open>total_amount\<close> over all items by decimal addition, here item after item, starting
  from the Decimal zero. It is written without the two steps of the source (the list
  first, then \<^verbatim>\<open>sum\<close> from the int 0), to be compared with them.
\<close>

fun spec_total_from :: "decimal \<Rightarrow> pydict list \<Rightarrow> pyerr + decimal" where
  "spec_total_from acc [] = Inr acc"
| "spec_total_from acc (item # items) =
     bindE (getitem item ''total_amount'') (\<lambda>v.
     bindE (Decimal v) (\<lambda>d.
     bindE (dec_add acc d) (\<lambda>acc'.
     spec_total_from acc' items)))"

definition spec_total :: "pydict list \<Rightarrow> pyerr + decimal" where
  "spec_total items = spec_total_from (Decimal_int 0) items"

text \<open>
  No addition of the running sum needs rounding: each exact partial sum, starting from
  \<open>acc\<close>, fits the context.
\<close>

fun sums_in_context :: "decimal \<Rightarrow> decimal list \<Rightarrow> bool" where
  "sums_in_context acc [] = True"
| "sums_in_context (Fin s c e) (Fin s' c' e' # ds) =
     (in_context (add_exact s c e s' c' e') \<and> sums_in_context (add_exact s c e s' c' e') ds)"
| "sums_in_context acc (d # ds) = False"

section \<open>The float literals\<close>

text \<open>
  \<open>float_0_09\<close> and \<open>float_0_18\<close> are doubles (twice the numerator is a 53-bit
  significand) and lie within half a unit in the last place of 9/100 and 18/100, so they
  are what the literals \<^verbatim>\<open>0.09\<close> and \<^verbatim>\<open>0.18\<close> denote. Their conversion to
  Decimal is exact, and neither is the decimal fraction itself.
\<close>

lemma float_0_09_nearest:
  "2 ^ 52 \<le> 2 * fst float_0_09 \<and> 2 * fst float_0_09 < 2 ^ 53
   \<and> \<bar>of_nat (fst float_0_09) / 2 ^ snd float_0_09 - (9 / 100 :: rat)\<bar>
       < 1 / 2 ^ (snd float_0_09 + 2)"
  by (simp add: float_0_09_def)

lemma float_0_18_nearest:
  "2 ^ 52 \<le> 2 * fst float_0_18 \<and> 2 * fst float_0_18 < 2 ^ 53
   \<and> \<bar>of_nat (fst float_0_18) / 2 ^ snd float_0_18 - (18 / 100 :: rat)\<bar>
       < 1 / 2 ^ (snd float_0_18 + 2)"
  by (simp add: float_0_18_def)

lemma Decimal_from_float_exact:
  "dec_val (Decimal_from_float (n, k)) = of_nat n / 2 ^ k"
proof -
  have "(10::rat) ^ k = 2 ^ k * 5 ^ k"
    by (simp flip: power_mult_distrib)
  then show ?thesis
    by (simp add: Decimal_from_float_def power_int_minus field_simps)
qed

lemma Decimal_0_09_below: "dec_val (Decimal_from_float float_0_09) < 9 / 100"
  by (simp add: Decimal_from_float_exact float_0_09_def)

lemma Decimal_0_18_below: "dec_val (Decimal_from_float float_0_18) < 18 / 100"
  by (simp add: Decimal_from_float_exact float_0_18_def)

section \<open>Facts about the decimal arithmetic\<close>

lemma ndigits_pos: "0 < ndigits n"
  by (subst ndigits.simps) simp

lemma ndigits_lt: "n < 10 ^ ndigits n"
proof (induction n rule: ndigits.induct)
  case (1 n)
  show ?case
  proof (cases "n < 10")
    case True
    then show ?thesis by (subst ndigits.simps) simp
  next
    case False
    with 1 have "n div 10 < 10 ^ ndigits (n div 10)" by simp
    then have "n < 10 * 10 ^ ndigits (n div 10)" by linarith
    with False show ?thesis by (subst ndigits.simps) simp
  qed
qed

lemma ndigits_ge: "0 < n \<Longrightarrow> 10 ^ (ndigits n - 1) \<le> n"
proof (induction n rule: ndigits.induct)
  case (1 n)
  show ?case
  proof (cases "n < 10")
    case True
    with 1(2) show ?thesis by (subst ndigits.simps) simp
  next
    case False
    then have "0 < n div 10" by simp
    with 1(1) False have "10 ^ (ndigits (n div 10) - 1) \<le> n div 10" by simp
    then have "10 * 10 ^ (ndigits (n div 10) - 1) \<le> n" by linarith
    moreover have "0 < ndigits (n div 10)" by (rule ndigits_pos)
    ultimately have "10 ^ ndigits (n div 10) \<le> n"
      by (cases "ndigits (n div 10)") simp_all
    with False show ?thesis by (subst ndigits.simps) simp
  qed
qed

lemma ndigits_le_iff: "0 < k \<Longrightarrow> ndigits n \<le> k \<longleftrightarrow> n < 10 ^ k"
proof
  assume "ndigits n \<le> k"
  then have "(10::nat) ^ ndigits n \<le> 10 ^ k" by (simp add: power_increasing)
  with ndigits_lt [of n] show "n < 10 ^ k" by linarith
next
  assume k: "0 < k" and lt: "n < 10 ^ k"
  show "ndigits n \<le> k"
  proof (cases "n = 0")
    case True
    then have "ndigits n = 1" by (subst ndigits.simps) simp
    with k show ?thesis by simp
  next
    case False
    then have "10 ^ (ndigits n - 1) \<le> n" using ndigits_ge [of n] by simp
    with lt have "(10::nat) ^ (ndigits n - 1) < 10 ^ k" by linarith
    then have "ndigits n - 1 < k" by (simp add: power_strict_increasing_iff)
    then show ?thesis by simp
  qed
qed

lemma ndigits_unique: "10 ^ k \<le> n \<Longrightarrow> n < 10 ^ Suc k \<Longrightarrow> ndigits n = Suc k"
proof -
  assume lo: "10 ^ k \<le> n" and hi: "n < 10 ^ Suc k"
  from hi have le: "ndigits n \<le> Suc k" by (simp add: ndigits_le_iff)
  have "\<not> ndigits n \<le> k"
  proof
    assume a: "ndigits n \<le> k"
    have "n < 10 ^ ndigits n" by (rule ndigits_lt)
    also from a have "(10::nat) ^ ndigits n \<le> 10 ^ k" by (simp add: power_increasing)
    finally show False using lo by simp
  qed
  with le show ?thesis by simp
qed

text \<open>A result that fits the context is returned as it is.\<close>

lemma dec_fix_exact:
  assumes "c \<noteq> 0" "c < 10 ^ prec" "Etiny \<le> e" "e \<le> Etop"
  shows "dec_fix (Fin s c e) = Inr (Fin s c e)"
proof -
  have nd: "ndigits c \<le> prec"
    using assms(2) by (simp add: ndigits_le_iff prec_def)
  then have a1: "\<not> int (ndigits c) + e - int prec > Etop"
    using assms(4) by simp
  from nd have a2: "\<not> e < max (int (ndigits c) + e - int prec) Etiny"
    using assms(3) by simp
  show ?thesis
    using assms(1) a1 a2 by (simp add: Let_def)
qed

text \<open>A result with \<open>prec + Suc k\<close> digits loses its last \<open>Suc k\<close> digits.\<close>

lemma dec_fix_round:
  assumes lo: "10 ^ (prec + k) \<le> c" and hi: "c < 10 ^ (prec + Suc k)"
    and e1: "Etiny \<le> e + int (Suc k)" and e2: "e + int (Suc k) \<le> Etop"
    and r: "round_half_even c (Suc k) < 10 ^ prec"
  shows "dec_fix (Fin s c e) = Inr (Fin s (round_half_even c (Suc k)) (e + int (Suc k)))"
proof -
  have nd: "ndigits c = prec + Suc k"
    using ndigits_unique [of "prec + k" c] lo hi by simp
  have "0 < (10::nat) ^ (prec + k)" by simp
  with lo have c0: "c \<noteq> 0" by linarith
  have ndr: "ndigits (round_half_even c (Suc k)) \<le> prec"
    using r by (simp add: ndigits_le_iff prec_def)
  have em: "int (ndigits c) + e - int prec = e + int (Suc k)"
    using nd by simp
  have nk: "nat (1 + int k) = Suc k" by simp
  show ?thesis
    using c0 e1 e2 ndr
    by (simp only: dec_fix.simps em Let_def) (simp add: max_def nk)
qed


lemma dec_fix_in_context: "in_context d \<Longrightarrow> dec_fix d = Inr d"
proof (cases d)
  case (Fin s c e)
  assume ic: "in_context d"
  show ?thesis
  proof (cases "c = 0")
    case True
    with ic Fin show ?thesis by simp
  next
    case False
    with ic Fin have nd: "ndigits c \<le> prec" and lo: "Etiny \<le> e"
      and hi: "int (ndigits c) + e - 1 \<le> Emax" by simp_all
    from hi have a1: "\<not> int (ndigits c) + e - int prec > Etop"
      by (simp add: Etop_def)
    from nd lo have a2: "\<not> e < max (int (ndigits c) + e - int prec) Etiny"
      by simp
    show ?thesis
      using False a1 a2 Fin by (simp add: Let_def)
  qed
qed simp_all

lemma mag_le_iff:
  assumes "c \<noteq> 0"
  shows "int (ndigits c) + e \<le> B \<longleftrightarrow> e < B \<and> c < 10 ^ nat (B - e)"
proof
  assume a: "int (ndigits c) + e \<le> B"
  have p: "0 < ndigits c" by (rule ndigits_pos)
  with a have eB: "e < B" by linarith
  from a have "ndigits c \<le> nat (B - e)" by linarith
  moreover from eB have "0 < nat (B - e)" by simp
  ultimately have "c < 10 ^ nat (B - e)" by (simp add: ndigits_le_iff)
  with eB show "e < B \<and> c < 10 ^ nat (B - e)" by simp
next
  assume a: "e < B \<and> c < 10 ^ nat (B - e)"
  then have "0 < nat (B - e)" by simp
  with a have "ndigits c \<le> nat (B - e)" by (simp add: ndigits_le_iff)
  with a show "int (ndigits c) + e \<le> B" by linarith
qed

lemma mag_le_mono: "mag_le B d \<Longrightarrow> B \<le> B' \<Longrightarrow> mag_le B' d"
  by (cases d) (auto split: if_splits)

lemma ndigits_mult_le: "ndigits (a * b) \<le> ndigits a + ndigits b"
proof -
  have "a * b < 10 ^ ndigits a * 10 ^ ndigits b"
    using ndigits_lt [of a] ndigits_lt [of b] by (simp add: mult_strict_mono)
  then have "a * b < 10 ^ (ndigits a + ndigits b)" by (simp add: power_add)
  moreover have "0 < ndigits a + ndigits b" using ndigits_pos [of a] by simp
  ultimately show ?thesis by (simp add: ndigits_le_iff)
qed

lemma mul_mag:
  assumes "mag_le B1 (Fin s1 c1 e1)" "mag_le B2 (Fin s2 c2 e2)"
  shows "mag_le (B1 + B2) (Fin s (c1 * c2) (e1 + e2))"
proof (cases "c1 * c2 = 0")
  case True
  then show ?thesis by simp
next
  case False
  then have "c1 \<noteq> 0" "c2 \<noteq> 0" by simp_all
  with assms have "int (ndigits c1) + e1 \<le> B1" "int (ndigits c2) + e2 \<le> B2" by simp_all
  moreover have "int (ndigits (c1 * c2)) \<le> int (ndigits c1) + int (ndigits c2)"
    using ndigits_mult_le [of c1 c2] by linarith
  ultimately show ?thesis using False by simp
qed

lemma shift_bound:
  assumes "c \<noteq> 0" "int (ndigits c) + e1 \<le> B" "e \<le> e1"
  shows "c * 10 ^ nat (e1 - e) < 10 ^ nat (B - e)"
proof -
  from assms(1,2) have eB: "e1 < B" and c: "c < 10 ^ nat (B - e1)"
    by (simp_all add: mag_le_iff)
  have "c * 10 ^ nat (e1 - e) < 10 ^ nat (B - e1) * 10 ^ nat (e1 - e)"
    using c by simp
  also have "\<dots> = 10 ^ (nat (B - e1) + nat (e1 - e))" by (simp add: power_add)
  also have "nat (B - e1) + nat (e1 - e) = nat (B - e)" using eB assms(3) by linarith
  finally show ?thesis .
qed

lemma add_mag:
  assumes m1: "mag_le B (Fin s1 c1 e1)" and m2: "mag_le B (Fin s2 c2 e2)"
  shows "mag_le (B + 1) (add_exact s1 c1 e1 s2 c2 e2)"
proof -
  define e where "e = min e1 e2"
  define a where "a = c1 * 10 ^ nat (e1 - e)"
  define b where "b = c2 * 10 ^ nat (e2 - e)"
  define r where "r = (if s1 then - 1 else 1) * int a + (if s2 then - 1 else 1) * int b"
  have ae: "add_exact s1 c1 e1 s2 c2 e2 = (if r = 0 then Fin (s1 \<and> s2) 0 e else Fin (r < 0) (nat \<bar>r\<bar>) e)"
    by (simp add: add_exact_def Let_def e_def a_def b_def r_def)
  show ?thesis
  proof (cases "r = 0")
    case True
    with ae show ?thesis by simp
  next
    case False
    have le: "nat \<bar>r\<bar> \<le> a + b" by (auto simp: r_def)
    from False have nz: "c1 \<noteq> 0 \<or> c2 \<noteq> 0" by (auto simp: r_def a_def b_def)
    have ea: "a = 0 \<or> (e < B \<and> a < 10 ^ nat (B - e))"
    proof (cases "c1 = 0")
      case True then show ?thesis by (simp add: a_def)
    next
      case c: False
      with m1 have h: "int (ndigits c1) + e1 \<le> B" by simp
      have "e \<le> e1" by (simp add: e_def)
      with c h have "a < 10 ^ nat (B - e)" unfolding a_def by (rule shift_bound)
      moreover have "e < B" using h ndigits_pos [of c1] \<open>e \<le> e1\<close> by linarith
      ultimately show ?thesis by simp
    qed
    have eb: "b = 0 \<or> (e < B \<and> b < 10 ^ nat (B - e))"
    proof (cases "c2 = 0")
      case True then show ?thesis by (simp add: b_def)
    next
      case c: False
      with m2 have h: "int (ndigits c2) + e2 \<le> B" by simp
      have "e \<le> e2" by (simp add: e_def)
      with c h have "b < 10 ^ nat (B - e)" unfolding b_def by (rule shift_bound)
      moreover have "e < B" using h ndigits_pos [of c2] \<open>e \<le> e2\<close> by linarith
      ultimately show ?thesis by simp
    qed
    from False have "a \<noteq> 0 \<or> b \<noteq> 0" by (auto simp: r_def)
    with ea eb have eB: "e < B" by blast
    from ea eb have "a + b < 2 * 10 ^ nat (B - e)"
      by (cases "a = 0"; cases "b = 0") auto
    also have "\<dots> \<le> 10 * 10 ^ nat (B - e)" by simp
    also have "\<dots> = 10 ^ Suc (nat (B - e))" by simp
    also have "Suc (nat (B - e)) = nat (B + 1 - e)" using eB by linarith
    finally have "nat \<bar>r\<bar> < 10 ^ nat (B + 1 - e)" using le by linarith
    moreover have "nat \<bar>r\<bar> \<noteq> 0" using False by simp
    moreover have "e < B + 1" using eB by simp
    ultimately have "int (ndigits (nat \<bar>r\<bar>)) + e \<le> B + 1"
      by (simp add: mag_le_iff)
    with ae False show ?thesis by simp
  qed
qed


lemma round_half_even_le: "round_half_even c k \<le> c div 10 ^ k + 1"
  by (simp add: round_half_even_def Let_def)

lemma ndigits_div10: "10 \<le> n \<Longrightarrow> ndigits (n div 10) = ndigits n - 1"
  by (subst (2) ndigits.simps) simp

lemma ndigits_gt_imp_ge10: "1 < ndigits n \<Longrightarrow> 10 \<le> n"
  by (subst (asm) ndigits.simps) (simp split: if_splits)

lemma fix_total:
  assumes m: "mag_le B (Fin s c e)" and lo: "Etiny \<le> B" and hi: "B \<le> Emax"
  shows "\<exists>c' e'. dec_fix (Fin s c e) = Inr (Fin s c' e') \<and> mag_le (B + 1) (Fin s c' e')"
proof (cases "c = 0")
  case True
  then show ?thesis by simp
next
  case c0: False
  define n where "n = ndigits c"
  define x where "x = max (int n + e - int prec) Etiny"
  from m c0 have nB: "int n + e \<le> B" by (simp add: n_def)
  have no1: "\<not> int (ndigits c) + e - int prec > Etop"
    using nB hi by (simp add: Etop_def n_def)
  have xB: "x \<le> B" using nB lo by (simp add: x_def)
  have xtop: "x + 1 \<le> Etop"
    using nB hi by (simp add: x_def Etop_def Etiny_def Emin_def Emax_def prec_def)
  show ?thesis
  proof (cases "e < x")
    case False
    then have "dec_fix (Fin s c e) = Inr (Fin s c e)"
      using c0 no1 by (simp add: Let_def n_def x_def)
    moreover have "mag_le (B + 1) (Fin s c e)"
      using m by (rule mag_le_mono) simp
    ultimately show ?thesis by blast
  next
    case True
    define k where "k = nat (x - e)"
    define q where "q = round_half_even c k"
    have xk: "x = e + int k" using True by (simp add: k_def)
    have fx: "dec_fix (Fin s c e) =
        (if ndigits q > prec then Inr (Fin s (q div 10) (x + 1)) else Inr (Fin s q x))"
      using c0 no1 True xtop by (simp add: Let_def n_def x_def k_def q_def)
    have qle: "q \<le> c div 10 ^ k + 1" unfolding q_def by (rule round_half_even_le)
    have key: "q = 0 \<or> int (ndigits q) + x \<le> B + 1"
    proof (cases "k \<le> n")
      case True
      have "c < 10 ^ n" unfolding n_def by (rule ndigits_lt)
      also have "(10::nat) ^ n = 10 ^ (n - k) * 10 ^ k"
        using True by (simp flip: power_add)
      finally have "c div 10 ^ k < 10 ^ (n - k)"
        by (simp add: less_mult_imp_div_less)
      with qle have "q < 10 ^ Suc (n - k)" by simp
      then have "ndigits q \<le> Suc (n - k)" by (simp add: ndigits_le_iff)
      then have "int (ndigits q) + x \<le> int n + e + 1" using True xk by linarith
      with nB show ?thesis by simp
    next
      case False
      have "c < 10 ^ n" unfolding n_def by (rule ndigits_lt)
      also have "(10::nat) ^ n \<le> 10 ^ k" using False by (simp add: power_increasing)
      finally have "c div 10 ^ k = 0" by simp
      with qle have "q \<le> 1" by simp
      then have "q = 0 \<or> q = 1" by linarith
      moreover have "ndigits 1 = 1" by (subst ndigits.simps) simp
      ultimately show ?thesis using xB by auto
    qed
    show ?thesis
    proof (cases "ndigits q > prec")
      case False
      with fx key show ?thesis by auto
    next
      case True
      then have "1 < ndigits q" by (simp add: prec_def)
      then have q10: "10 \<le> q" by (rule ndigits_gt_imp_ge10)
      then have "ndigits (q div 10) = ndigits q - 1" by (rule ndigits_div10)
      moreover from q10 have "q \<noteq> 0" by simp
      ultimately have "int (ndigits (q div 10)) + (x + 1) \<le> B + 1"
        using key ndigits_pos [of q] by linarith
      with fx True show ?thesis by auto
    qed
  qed
qed

lemma dec_mul_total:
  assumes "mag_le B1 a" "mag_le B2 b" "Etiny \<le> B1 + B2" "B1 + B2 \<le> Emax"
  shows "\<exists>r. dec_mul a b = Inr r \<and> mag_le (B1 + B2 + 1) r"
proof -
  from assms(1) obtain s1 c1 e1 where a: "a = Fin s1 c1 e1" by (cases a) simp_all
  from assms(2) obtain s2 c2 e2 where b: "b = Fin s2 c2 e2" by (cases b) simp_all
  have "mag_le (B1 + B2) (Fin (s1 \<noteq> s2) (c1 * c2) (e1 + e2))"
    using assms(1,2) unfolding a b by (rule mul_mag)
  from fix_total [OF this assms(3,4)] show ?thesis
    unfolding a b by auto
qed

lemma dec_add_total:
  assumes "mag_le B a" "mag_le B b" "Etiny \<le> B + 1" "B + 1 \<le> Emax"
  shows "\<exists>r. dec_add a b = Inr r \<and> mag_le (B + 2) r"
proof -
  from assms(1) obtain s1 c1 e1 where a: "a = Fin s1 c1 e1" by (cases a) simp_all
  from assms(2) obtain s2 c2 e2 where b: "b = Fin s2 c2 e2" by (cases b) simp_all
  have m: "mag_le (B + 1) (add_exact s1 c1 e1 s2 c2 e2)"
    using assms(1,2) unfolding a b by (rule add_mag)
  obtain s c e where ae: "add_exact s1 c1 e1 s2 c2 e2 = Fin s c e"
    using m by (cases "add_exact s1 c1 e1 s2 c2 e2") simp_all
  from fix_total [OF m [unfolded ae] assms(3,4)] show ?thesis
    unfolding a b by (auto simp: ae)
qed

lemma mag_le_copy_negate: "mag_le B (copy_negate d) = mag_le B d"
  by (cases d) simp_all

lemma dec_sub_total:
  assumes "mag_le B a" "mag_le B b" "Etiny \<le> B + 1" "B + 1 \<le> Emax"
  shows "\<exists>r. dec_sub a b = Inr r \<and> mag_le (B + 2) r"
proof -
  from assms(1) have na: "\<not> is_nan a" by (cases a) simp_all
  from assms(2) have nb: "\<not> is_nan b" by (cases b) simp_all
  have "mag_le B (copy_negate b)" using assms(2) by (simp add: mag_le_copy_negate)
  from dec_add_total [OF assms(1) this assms(3,4)] show ?thesis
    using na nb by (simp add: dec_sub_def)
qed

lemma dec_val_mul:
  "dec_val (Fin (s1 \<noteq> s2) (c1 * c2) (e1 + e2)) = dec_val (Fin s1 c1 e1) * dec_val (Fin s2 c2 e2)"
  by (simp add: power_int_add)

lemma shift_val:
  assumes "e \<le> e1"
  shows "(of_nat (c * 10 ^ nat (e1 - e)) :: rat) * power_int 10 e = of_nat c * power_int 10 e1"
proof -
  have "(10::rat) ^ nat (e1 - e) = power_int 10 (e1 - e)"
    using assms by (simp add: power_int_def)
  moreover have "power_int (10::rat) (e1 - e) * power_int 10 e = power_int 10 e1"
    by (simp flip: power_int_add)
  ultimately show ?thesis by (simp add: mult.assoc)
qed

lemma dec_val_add_exact:
  "dec_val (add_exact s1 c1 e1 s2 c2 e2) = dec_val (Fin s1 c1 e1) + dec_val (Fin s2 c2 e2)"
proof -
  define e where "e = min e1 e2"
  define a where "a = c1 * 10 ^ nat (e1 - e)"
  define b where "b = c2 * 10 ^ nat (e2 - e)"
  define r where "r = (if s1 then - 1 else 1) * int a + (if s2 then - 1 else 1) * int b"
  have ae: "add_exact s1 c1 e1 s2 c2 e2 = (if r = 0 then Fin (s1 \<and> s2) 0 e else Fin (r < 0) (nat \<bar>r\<bar>) e)"
    by (simp add: add_exact_def Let_def e_def a_def b_def r_def)
  have "dec_val (add_exact s1 c1 e1 s2 c2 e2) = of_int r * power_int 10 e"
    unfolding ae by (cases "r < 0") (simp_all add: of_nat_nat)
  also have "of_int r = (if s1 then - 1 else 1) * (of_nat a :: rat) + (if s2 then - 1 else 1) * of_nat b"
    by (simp add: r_def)
  also have "\<dots> * power_int 10 e =
      (if s1 then - 1 else 1) * ((of_nat a :: rat) * power_int 10 e)
      + (if s2 then - 1 else 1) * (of_nat b * power_int 10 e)"
    by (simp add: algebra_simps)
  also have "(of_nat a :: rat) * power_int 10 e = of_nat c1 * power_int 10 e1"
    unfolding a_def by (rule shift_val) (simp add: e_def)
  also have "(of_nat b :: rat) * power_int 10 e = of_nat c2 * power_int 10 e2"
    unfolding b_def by (rule shift_val) (simp add: e_def)
  finally show ?thesis by simp
qed

text \<open>What one pass of the loop body stores.\<close>

lemma cgst_branch_net_amount: "fst (cgst_branch net item) ''net_amount'' = item ''net_amount''"
  by (simp add: cgst_branch_def Let_def split: sum.splits)

lemma igst_branch_net_amount: "fst (igst_branch net item) ''net_amount'' = item ''net_amount''"
  by (simp add: igst_branch_def Let_def split: sum.splits)

lemma compute_item_net_amount:
  "net_amount_expr item = Inr net \<Longrightarrow>
   fst (compute_item billing shipping item) ''net_amount'' = Some (PDec net)"
  by (simp add: compute_item_def Let_def cgst_branch_net_amount igst_branch_net_amount
      split: sum.splits)

lemma compute_item_net_error:
  "net_amount_expr item = Inl e \<Longrightarrow> compute_item billing shipping item = (item, Some e)"
  by (simp add: compute_item_def)

lemma compute_item_jurisdiction_error:
  "net_amount_expr item = Inr net \<Longrightarrow> same_state_and_city billing shipping = Inl e \<Longrightarrow>
   compute_item billing shipping item = (item(''net_amount'' \<mapsto> PDec net), Some e)"
  by (simp add: compute_item_def)

lemma compute_item_cgst:
  assumes "net_amount_expr item = Inr net" "same_state_and_city billing shipping = Inr True"
    "dec_mul net (Decimal_from_float float_0_09) = Inr tax_amount"
    "dec_add net tax_amount = Inr total_amount"
  shows "compute_item billing shipping item =
    (item(''net_amount'' \<mapsto> PDec net, ''tax_type'' \<mapsto> PStr ''CGST'',
          ''tax_rate'' \<mapsto> PDec (Decimal_from_float float_0_09),
          ''tax_amount'' \<mapsto> PDec tax_amount, ''total_amount'' \<mapsto> PDec total_amount,
          ''tax_amount_sgst'' \<mapsto> PDec tax_amount,
          ''total_amount_sgst'' \<mapsto> PDec total_amount), None)"
  using assms by (simp add: compute_item_def cgst_branch_def)

lemma compute_item_igst:
  assumes "net_amount_expr item = Inr net" "same_state_and_city billing shipping = Inr False"
    "dec_mul net (Decimal_from_float float_0_18) = Inr tax_amount"
    "dec_add net tax_amount = Inr total_amount"
  shows "compute_item billing shipping item =
    (item(''net_amount'' \<mapsto> PDec net, ''tax_type'' \<mapsto> PStr ''IGST'',
          ''tax_rate'' \<mapsto> PDec (Decimal_from_float float_0_18),
          ''tax_amount'' \<mapsto> PDec tax_amount, ''total_amount'' \<mapsto> PDec total_amount,
          ''tax_amount_sgst'' \<mapsto> PDec (Decimal_int 0),
          ''total_amount_sgst'' \<mapsto> PDec (Decimal_int 0)), None)"
  using assms by (simp add: compute_item_def igst_branch_def)

lemma net_amount_expr_Fin:
  assumes "item ''unit_price'' = Some up" "Decimal up = Inr (Fin s1 c1 e1)"
    "item ''quantity'' = Some qv" "Decimal qv = Inr (Fin s2 c2 e2)"
    "item ''discount'' = Some dv" "Decimal dv = Inr (Fin s3 c3 e3)"
  shows "net_amount_expr item =
    bindE (dec_fix (Fin (s1 \<noteq> s2) (c1 * c2) (e1 + e2))) (\<lambda>pq. dec_sub pq (Fin s3 c3 e3))"
  using assms by (simp add: net_amount_expr_def getitem_def bindE_def)

lemma dec_sub_Fin:
  "dec_sub (Fin s1 c1 e1) (Fin s2 c2 e2) = dec_fix (add_exact s1 c1 e1 (\<not> s2) c2 e2)"
  by (simp add: dec_sub_def)

section \<open>The loop, the frame and the table\<close>

text \<open>The loop over the items.\<close>

lemma compute_items_length: "length (fst (compute_items billing shipping items)) = length items"
  by (induction items) (auto split: prod.splits option.splits)

lemma compute_items_success:
  "snd (compute_items billing shipping items) = None \<Longrightarrow>
   fst (compute_items billing shipping items) = map (\<lambda>item. fst (compute_item billing shipping item)) items"
  by (induction items) (auto split: prod.splits option.splits)

lemma compute_items_success_each:
  "snd (compute_items billing shipping items) = None \<Longrightarrow> item \<in> set items \<Longrightarrow>
   snd (compute_item billing shipping item) = None"
  by (induction items) (auto split: prod.splits option.splits)

text \<open>Only the seven derived keys are ever assigned.\<close>

lemma cgst_branch_other_keys:
  "k \<notin> set [''tax_type'', ''tax_rate'', ''tax_amount'', ''total_amount'', ''tax_amount_sgst'',
      ''total_amount_sgst''] \<Longrightarrow> fst (cgst_branch net item) k = item k"
  by (simp add: cgst_branch_def Let_def split: sum.splits)

lemma igst_branch_other_keys:
  "k \<notin> set [''tax_type'', ''tax_rate'', ''tax_amount'', ''total_amount'', ''tax_amount_sgst'',
      ''total_amount_sgst''] \<Longrightarrow> fst (igst_branch net item) k = item k"
  by (simp add: igst_branch_def Let_def split: sum.splits)

lemma compute_item_other_keys:
  assumes "k \<notin> set [''net_amount'', ''tax_type'', ''tax_rate'', ''tax_amount'', ''total_amount'',
      ''tax_amount_sgst'', ''total_amount_sgst'']"
  shows "fst (compute_item billing shipping item) k = item k"
proof -
  from assms have k: "k \<notin> set [''tax_type'', ''tax_rate'', ''tax_amount'', ''total_amount'',
      ''tax_amount_sgst'', ''total_amount_sgst'']" and n: "k \<noteq> ''net_amount''"
    by simp_all
  show ?thesis
    using n
    by (simp add: compute_item_def Let_def cgst_branch_other_keys [OF k]
        igst_branch_other_keys [OF k] split: sum.splits)
qed

lemma compute_items_other_keys:
  assumes "k \<notin> set [''net_amount'', ''tax_type'', ''tax_rate'', ''tax_amount'', ''total_amount'',
      ''tax_amount_sgst'', ''total_amount_sgst'']"
  shows "i < length items \<Longrightarrow> (fst (compute_items billing shipping items) ! i) k = (items ! i) k"
proof (induction items arbitrary: i)
  case Nil
  then show ?case by simp
next
  case (Cons item items)
  show ?case
  proof (cases i)
    case 0
    then show ?thesis
      using compute_item_other_keys [OF assms, of billing shipping item]
      by (auto split: prod.splits option.splits)
  next
    case (Suc j)
    with Cons show ?thesis
      by (auto split: prod.splits option.splits)
  qed
qed

text \<open>The item table.\<close>

lemma item_rows_length: "item_rows index items = Inr rows \<Longrightarrow> length rows = length items"
  by (induction items arbitrary: index rows) (auto simp: bindE_def split: sum.splits)

lemma item_rows_nth:
  "item_rows index items = Inr rows \<Longrightarrow> i < length items \<Longrightarrow>
   item_row (index + i) (items ! i) = Inr (rows ! i)"
proof (induction items arbitrary: index rows i)
  case Nil
  then show ?case by simp
next
  case (Cons item items)
  from Cons.prems(1) obtain row rest where
    row: "item_row index item = Inr row" and rest: "item_rows (Suc index) items = Inr rest"
    and rows: "rows = row # rest"
    by (auto simp: bindE_def split: sum.splits)
  show ?case
  proof (cases i)
    case 0
    with row rows show ?thesis by simp
  next
    case (Suc j)
    with Cons.prems(2) have "j < length items" by simp
    from Cons.IH [OF rest this] show ?thesis using Suc rows by simp
  qed
qed

lemma item_row_cells:
  "item_row index item = Inr row \<Longrightarrow>
   length row = 9 \<and> row ! 0 = PInt (int index + 1) \<and>
   item ''description'' = Some (row ! 1) \<and> item ''unit_price'' = Some (row ! 2) \<and>
   item ''quantity'' = Some (row ! 3) \<and> item ''net_amount'' = Some (row ! 4) \<and>
   item ''tax_rate'' = Some (row ! 5) \<and> item ''tax_type'' = Some (row ! 6) \<and>
   item ''tax_amount'' = Some (row ! 7) \<and> item ''total_amount'' = Some (row ! 8)"
  by (auto simp: item_row_def getitem_def bindE_def split: option.splits)

lemma item_row_total:
  assumes "item ''description'' \<noteq> None" "item ''unit_price'' \<noteq> None"
    "item ''quantity'' \<noteq> None" "item ''net_amount'' \<noteq> None" "item ''tax_rate'' \<noteq> None"
    "item ''tax_type'' \<noteq> None" "item ''tax_amount'' \<noteq> None" "item ''total_amount'' \<noteq> None"
  shows "\<exists>row. item_row index item = Inr row"
  using assms by (auto simp: item_row_def getitem_def bindE_def)

lemma item_rows_total:
  "(\<And>item index. item \<in> set items \<Longrightarrow> \<exists>row. item_row index item = Inr row) \<Longrightarrow>
   \<exists>rows. item_rows index items = Inr rows"
proof (induction items arbitrary: index)
  case Nil
  then show ?case by simp
next
  case (Cons item items)
  from Cons.prems [of item index] obtain row where "item_row index item = Inr row" by auto
  moreover from Cons.IH [of "Suc index"] Cons.prems obtain rows where
    "item_rows (Suc index) items = Inr rows" by auto
  ultimately show ?case by (simp add: bindE_def)
qed

text \<open>Running the loop body again.\<close>

lemma net_amount_expr_cong:
  "item1 ''unit_price'' = item2 ''unit_price'' \<Longrightarrow> item1 ''quantity'' = item2 ''quantity'' \<Longrightarrow>
   item1 ''discount'' = item2 ''discount'' \<Longrightarrow> net_amount_expr item1 = net_amount_expr item2"
  by (simp add: net_amount_expr_def getitem_def)

lemma net_amount_expr_computed:
  "net_amount_expr (fst (compute_item billing shipping item)) = net_amount_expr item"
  by (rule net_amount_expr_cong) (simp_all add: compute_item_other_keys)

lemma cgst_branch_again:
  "item ''net_amount'' = Some (PDec net) \<Longrightarrow>
   cgst_branch net ((fst (cgst_branch net item))(''net_amount'' \<mapsto> PDec net)) = cgst_branch net item"
  by (auto simp: cgst_branch_def Let_def fun_eq_iff split: sum.splits)

lemma igst_branch_again:
  "item ''net_amount'' = Some (PDec net) \<Longrightarrow>
   igst_branch net ((fst (igst_branch net item))(''net_amount'' \<mapsto> PDec net)) = igst_branch net item"
  by (auto simp: igst_branch_def Let_def fun_eq_iff split: sum.splits)

lemma compute_item_idempotent:
  "compute_item billing shipping (fst (compute_item billing shipping item)) =
   compute_item billing shipping item"
proof (cases "net_amount_expr item")
  case (Inl e)
  then have "compute_item billing shipping item = (item, Some e)"
    by (rule compute_item_net_error)
  then show ?thesis by simp
next
  case (Inr net)
  have again: "net_amount_expr (fst (compute_item billing shipping item)) = Inr net"
    using Inr by (simp add: net_amount_expr_computed)
  show ?thesis
  proof (cases "same_state_and_city billing shipping")
    case (Inl e)
    have once: "compute_item billing shipping item = (item(''net_amount'' \<mapsto> PDec net), Some e)"
      using Inr Inl by (rule compute_item_jurisdiction_error)
    have "compute_item billing shipping (fst (compute_item billing shipping item)) =
        ((fst (compute_item billing shipping item))(''net_amount'' \<mapsto> PDec net), Some e)"
      using again Inl by (rule compute_item_jurisdiction_error)
    also have "\<dots> = (item(''net_amount'' \<mapsto> PDec net), Some e)"
      unfolding once by simp
    finally show ?thesis unfolding once .
  next
    case same: (Inr same)
    show ?thesis
    proof (cases same)
      case True
      have once: "compute_item billing shipping item =
          cgst_branch net (item(''net_amount'' \<mapsto> PDec net))"
        using Inr same True by (simp add: compute_item_def)
      have "compute_item billing shipping (fst (compute_item billing shipping item)) =
          cgst_branch net ((fst (compute_item billing shipping item))(''net_amount'' \<mapsto> PDec net))"
        using again same True by (simp add: compute_item_def)
      also have "\<dots> = cgst_branch net (item(''net_amount'' \<mapsto> PDec net))"
        unfolding once by (rule cgst_branch_again) simp
      finally show ?thesis unfolding once .
    next
      case False
      have once: "compute_item billing shipping item =
          igst_branch net (item(''net_amount'' \<mapsto> PDec net))"
        using Inr same False by (simp add: compute_item_def)
      have "compute_item billing shipping (fst (compute_item billing shipping item)) =
          igst_branch net ((fst (compute_item billing shipping item))(''net_amount'' \<mapsto> PDec net))"
        using again same False by (simp add: compute_item_def)
      also have "\<dots> = igst_branch net (item(''net_amount'' \<mapsto> PDec net))"
        unfolding once by (rule igst_branch_again) simp
      finally show ?thesis unfolding once .
    qed
  qed
qed

lemma compute_items_idempotent:
  "compute_items billing shipping (fst (compute_items billing shipping items)) =
   compute_items billing shipping items"
proof (induction items)
  case Nil
  show ?case by simp
next
  case (Cons item items)
  obtain item' r where ci: "compute_item billing shipping item = (item', r)"
    by (cases "compute_item billing shipping item")
  then have again: "compute_item billing shipping item' = (item', r)"
    using compute_item_idempotent [of billing shipping item] by simp
  show ?case
  proof (cases r)
    case (Some e)
    with ci again show ?thesis by simp
  next
    case None
    obtain items' r' where cs: "compute_items billing shipping items = (items', r')"
      by (cases "compute_items billing shipping items")
    with Cons.IH have "compute_items billing shipping items' = (items', r')" by simp
    with ci again None cs show ?thesis by simp
  qed
qed

text \<open>What a successful pass leaves in the item.\<close>

lemma net_amount_expr_keys:
  "net_amount_expr item = Inr net \<Longrightarrow>
   item ''unit_price'' \<noteq> None \<and> item ''quantity'' \<noteq> None \<and> item ''discount'' \<noteq> None"
  by (auto simp: net_amount_expr_def getitem_def bindE_def split: option.splits sum.splits)

lemma cgst_branch_success_keys:
  "snd (cgst_branch net item) = None \<Longrightarrow>
   fst (cgst_branch net item) ''tax_rate'' \<noteq> None \<and> fst (cgst_branch net item) ''tax_type'' \<noteq> None \<and>
   fst (cgst_branch net item) ''tax_amount'' \<noteq> None \<and> fst (cgst_branch net item) ''total_amount'' \<noteq> None"
  by (auto simp: cgst_branch_def Let_def split: sum.splits)

lemma igst_branch_success_keys:
  "snd (igst_branch net item) = None \<Longrightarrow>
   fst (igst_branch net item) ''tax_rate'' \<noteq> None \<and> fst (igst_branch net item) ''tax_type'' \<noteq> None \<and>
   fst (igst_branch net item) ''tax_amount'' \<noteq> None \<and> fst (igst_branch net item) ''total_amount'' \<noteq> None"
  by (auto simp: igst_branch_def Let_def split: sum.splits)

lemma compute_item_success_keys:
  assumes "snd (compute_item billing shipping item) = None"
  shows "fst (compute_item billing shipping item) ''unit_price'' \<noteq> None \<and>
    fst (compute_item billing shipping item) ''quantity'' \<noteq> None \<and>
    fst (compute_item billing shipping item) ''net_amount'' \<noteq> None \<and>
    fst (compute_item billing shipping item) ''tax_rate'' \<noteq> None \<and>
    fst (compute_item billing shipping item) ''tax_type'' \<noteq> None \<and>
    fst (compute_item billing shipping item) ''tax_amount'' \<noteq> None \<and>
    fst (compute_item billing shipping item) ''total_amount'' \<noteq> None"
proof -
  from assms obtain net where net: "net_amount_expr item = Inr net"
    by (cases "net_amount_expr item") (simp_all add: compute_item_net_error)
  from net_amount_expr_keys [OF net]
  have a: "fst (compute_item billing shipping item) ''unit_price'' \<noteq> None"
    "fst (compute_item billing shipping item) ''quantity'' \<noteq> None"
    by (simp_all add: compute_item_other_keys)
  have b: "fst (compute_item billing shipping item) ''net_amount'' \<noteq> None"
    using net by (simp add: compute_item_net_amount)
  from assms net obtain same where same: "same_state_and_city billing shipping = Inr same"
    by (cases "same_state_and_city billing shipping")
      (simp_all add: compute_item_jurisdiction_error)
  have c: "fst (compute_item billing shipping item) ''tax_rate'' \<noteq> None \<and>
    fst (compute_item billing shipping item) ''tax_type'' \<noteq> None \<and>
    fst (compute_item billing shipping item) ''tax_amount'' \<noteq> None \<and>
    fst (compute_item billing shipping item) ''total_amount'' \<noteq> None"
  proof (cases same)
    case True
    have once: "compute_item billing shipping item =
        cgst_branch net (item(''net_amount'' \<mapsto> PDec net))"
      using net same True by (simp add: compute_item_def)
    from assms have "snd (cgst_branch net (item(''net_amount'' \<mapsto> PDec net))) = None"
      unfolding once .
    from cgst_branch_success_keys [OF this] show ?thesis
      unfolding once .
  next
    case False
    have once: "compute_item billing shipping item =
        igst_branch net (item(''net_amount'' \<mapsto> PDec net))"
      using net same False by (simp add: compute_item_def)
    from assms have "snd (igst_branch net (item(''net_amount'' \<mapsto> PDec net))) = None"
      unfolding once .
    from igst_branch_success_keys [OF this] show ?thesis
      unfolding once .
  qed
  from a b c show ?thesis by blast
qed

lemma exc_name_not_in_taxonomy:
  "exc_name e \<noteq> ''InvalidAmount''" "exc_name e \<noteq> ''MissingJurisdiction''"
  by (cases e; simp)+

text \<open>The constructor raises nothing but TypeError and InvalidOperation.\<close>

lemma parse_special_error: "parse_special neg r = Inl e \<Longrightarrow> e = InvalidOperation"
  by (simp add: parse_special_def Let_def split: if_splits)

lemma parse_exp_error: "parse_exp r = Inl e \<Longrightarrow> e = InvalidOperation"
  by (simp add: parse_exp_def Let_def split: list.splits if_splits prod.splits)

lemma Decimal_str_error: "Decimal_str v = Inl e \<Longrightarrow> e = InvalidOperation"
  by (auto simp: Decimal_str_def Let_def bindE_def split: prod.splits if_splits sum.splits
      dest: parse_special_error parse_exp_error)

lemma Decimal_error: "Decimal v = Inl e \<Longrightarrow> e = TypeError \<or> e = InvalidOperation"
  by (cases v) (auto dest: Decimal_str_error)

section \<open>The sample items, evaluated\<close>

lemma Decimal_str_538_10: "Decimal_str ''538.10'' = Inr (Fin False 53810 (- 2))"
  by (simp add: Decimal_str_def strip_def split_sign_def split_frac_def parse_exp_def
      digits_val_def is_space_def is_digit_def bindE_def)

lemma Decimal_str_30_96: "Decimal_str ''30.96'' = Inr (Fin False 3096 (- 2))"
  by (simp add: Decimal_str_def strip_def split_sign_def split_frac_def parse_exp_def
      digits_val_def is_space_def is_digit_def bindE_def)

lemma dec_fix_small:
  "c \<noteq> 0 \<Longrightarrow> c < 10 ^ 28 \<Longrightarrow> - 1000026 \<le> e \<Longrightarrow> e \<le> 999972 \<Longrightarrow> dec_fix (Fin s c e) = Inr (Fin s c e)"
  by (rule dec_fix_exact) (simp_all add: prec_def Etiny_def Etop_def Emin_def Emax_def)

lemma net_amount_expr_sample_538_10:
  "net_amount_expr (sample_item description ''538.10'') = Inr (Fin False 53810 (- 2))"
  by (simp del: dec_fix.simps
      add: net_amount_expr_def sample_item_def getitem_def bindE_def Decimal_str_538_10
        Decimal_int_def dec_sub_def add_exact_def dec_fix_small)

lemma net_amount_expr_sample_30_96:
  "net_amount_expr (sample_item description ''30.96'') = Inr (Fin False 3096 (- 2))"
  by (simp del: dec_fix.simps
      add: net_amount_expr_def sample_item_def getitem_def bindE_def Decimal_str_30_96
        Decimal_int_def dec_sub_def add_exact_def dec_fix_small)

lemma same_state_and_city_sample:
  "same_state_and_city sample_billing_details sample_shipping_details = Inr True"
  by (simp add: same_state_and_city_def sample_billing_details_def sample_shipping_details_def
      getitem_def bindE_def)

lemma same_state_and_city_other_state:
  "same_state_and_city sample_billing_details
     (sample_shipping_details(''state'' \<mapsto> PStr ''MAHARASHTRA'')) = Inr False"
  by (simp add: same_state_and_city_def sample_billing_details_def sample_shipping_details_def
      getitem_def bindE_def)

lemma rate_0_09: "Decimal_from_float float_0_09 = Fin False 899999999999999966693309261245303787291049957275390625 (- 55)"
  by (simp add: Decimal_from_float_def float_0_09_def)

lemma rate_0_18: "Decimal_from_float float_0_18 = Fin False 179999999999999993338661852249060757458209991455078125 (- 54)"
  by (simp add: Decimal_from_float_def float_0_18_def)

lemma tax_538_10_cgst:
  "dec_mul (Fin False 53810 (- 2)) (Decimal_from_float float_0_09) = Inr (Fin False 4842899999999999820776697135 (- 26))"
proof -
  have r: "round_half_even 48428999999999998207766971347609796794131398200988769531250 (Suc 30) = 4842899999999999820776697135"
    by (simp add: round_half_even_def)
  have "dec_mul (Fin False 53810 (- 2)) (Decimal_from_float float_0_09) = dec_fix (Fin False 48428999999999998207766971347609796794131398200988769531250 (- 57))"
    by (simp del: dec_fix.simps add: rate_0_09 rate_0_18)
  also have "\<dots> = Inr (Fin False 4842899999999999820776697135 (- 26))"
    using dec_fix_round [of 30 48428999999999998207766971347609796794131398200988769531250 "- 57" False]
    unfolding r by (simp add: prec_def Etiny_def Etop_def Emin_def Emax_def)
  finally show ?thesis .
qed

lemma total_538_10_cgst:
  "dec_add (Fin False 53810 (- 2)) (Fin False 4842899999999999820776697135 (- 26)) = Inr (Fin False 5865289999999999982077669714 (- 25))"
proof -
  have r: "round_half_even 58652899999999999820776697135 (Suc 0) = 5865289999999999982077669714"
    by (simp add: round_half_even_def)
  have "dec_add (Fin False 53810 (- 2)) (Fin False 4842899999999999820776697135 (- 26)) = dec_fix (Fin False 58652899999999999820776697135 (- 26))"
    by (simp del: dec_fix.simps add: add_exact_def)
  also have "\<dots> = Inr (Fin False 5865289999999999982077669714 (- 25))"
    using dec_fix_round [of 0 58652899999999999820776697135 "- 26" False]
    unfolding r by (simp add: prec_def Etiny_def Etop_def Emin_def Emax_def)
  finally show ?thesis .
qed

lemma tax_30_96_cgst:
  "dec_mul (Fin False 3096 (- 2)) (Decimal_from_float float_0_09) = Inr (Fin False 2786399999999999896882485473 (- 27))"
proof -
  have r: "round_half_even 2786399999999999896882485472815460525453090667724609375000 (Suc 29) = 2786399999999999896882485473"
    by (simp add: round_half_even_def)
  have "dec_mul (Fin False 3096 (- 2)) (Decimal_from_float float_0_09) = dec_fix (Fin False 2786399999999999896882485472815460525453090667724609375000 (- 57))"
    by (simp del: dec_fix.simps add: rate_0_09 rate_0_18)
  also have "\<dots> = Inr (Fin False 2786399999999999896882485473 (- 27))"
    using dec_fix_round [of 29 2786399999999999896882485472815460525453090667724609375000 "- 57" False]
    unfolding r by (simp add: prec_def Etiny_def Etop_def Emin_def Emax_def)
  finally show ?thesis .
qed

lemma total_30_96_cgst:
  "dec_add (Fin False 3096 (- 2)) (Fin False 2786399999999999896882485473 (- 27)) = Inr (Fin False 3374639999999999989688248547 (- 26))"
proof -
  have r: "round_half_even 33746399999999999896882485473 (Suc 0) = 3374639999999999989688248547"
    by (simp add: round_half_even_def)
  have "dec_add (Fin False 3096 (- 2)) (Fin False 2786399999999999896882485473 (- 27)) = dec_fix (Fin False 33746399999999999896882485473 (- 27))"
    by (simp del: dec_fix.simps add: add_exact_def)
  also have "\<dots> = Inr (Fin False 3374639999999999989688248547 (- 26))"
    using dec_fix_round [of 0 33746399999999999896882485473 "- 27" False]
    unfolding r by (simp add: prec_def Etiny_def Etop_def Emin_def Emax_def)
  finally show ?thesis .
qed

lemma tax_538_10_igst:
  "dec_mul (Fin False 53810 (- 2)) (Decimal_from_float float_0_18) = Inr (Fin False 9685799999999999641553394270 (- 26))"
proof -
  have r: "round_half_even 9685799999999999641553394269521959358826279640197753906250 (Suc 29) = 9685799999999999641553394270"
    by (simp add: round_half_even_def)
  have "dec_mul (Fin False 53810 (- 2)) (Decimal_from_float float_0_18) = dec_fix (Fin False 9685799999999999641553394269521959358826279640197753906250 (- 56))"
    by (simp del: dec_fix.simps add: rate_0_09 rate_0_18)
  also have "\<dots> = Inr (Fin False 9685799999999999641553394270 (- 26))"
    using dec_fix_round [of 29 9685799999999999641553394269521959358826279640197753906250 "- 56" False]
    unfolding r by (simp add: prec_def Etiny_def Etop_def Emin_def Emax_def)
  finally show ?thesis .
qed

lemma total_538_10_igst:
  "dec_add (Fin False 53810 (- 2)) (Fin False 9685799999999999641553394270 (- 26)) = Inr (Fin False 6349579999999999964155339427 (- 25))"
proof -
  have r: "round_half_even 63495799999999999641553394270 (Suc 0) = 6349579999999999964155339427"
    by (simp add: round_half_even_def)
  have "dec_add (Fin False 53810 (- 2)) (Fin False 9685799999999999641553394270 (- 26)) = dec_fix (Fin False 63495799999999999641553394270 (- 26))"
    by (simp del: dec_fix.simps add: add_exact_def)
  also have "\<dots> = Inr (Fin False 6349579999999999964155339427 (- 25))"
    using dec_fix_round [of 0 63495799999999999641553394270 "- 26" False]
    unfolding r by (simp add: prec_def Etiny_def Etop_def Emin_def Emax_def)
  finally show ?thesis .
qed

lemma dec_fix_overflow:
  assumes "10 ^ k \<le> c" "Etop < int (Suc k) + e - int prec"
  shows "dec_fix (Fin s c e) = Inl Overflow"
proof -
  have "0 < (10::nat) ^ k" by simp
  with assms(1) have c0: "c \<noteq> 0" by linarith
  have "Suc k \<le> ndigits c"
  proof (cases k)
    case 0
    then show ?thesis using ndigits_pos [of c] by simp
  next
    case (Suc j)
    have "\<not> ndigits c \<le> k" using assms(1) Suc by (simp add: ndigits_le_iff)
    then show ?thesis by simp
  qed
  then have "Etop < int (ndigits c) + e - int prec" using assms(2) by linarith
  with c0 show ?thesis by (simp add: Let_def)
qed

lemma in_context_small:
  "c < 10 ^ 28 \<Longrightarrow> - 1000026 \<le> e \<Longrightarrow> e \<le> 999972 \<Longrightarrow> in_context (Fin s c e)"
proof -
  assume c: "c < 10 ^ 28" and e: "- 1000026 \<le> e" "e \<le> 999972"
  from c have "ndigits c \<le> 28" by (simp add: ndigits_le_iff)
  with e show ?thesis
    by (simp add: prec_def Etiny_def Emin_def Emax_def)
qed

lemma Decimal_str_minus_538_10: "Decimal_str ''-538.10'' = Inr (Fin True 53810 (- 2))"
  by (simp add: Decimal_str_def strip_def split_sign_def split_frac_def parse_exp_def
      digits_val_def is_space_def is_digit_def bindE_def)

lemma Decimal_str_abc: "Decimal_str ''abc'' = Inl InvalidOperation"
  by (simp add: Decimal_str_def strip_def split_sign_def split_frac_def parse_special_def
      lower_def is_space_def is_digit_def)

lemma Decimal_str_29_digits:
  "Decimal_str ''1.0000000000000000000000000001'' = Inr (Fin False 10000000000000000000000000001 (- 28))"
  by (simp add: Decimal_str_def strip_def split_sign_def split_frac_def parse_exp_def
      digits_val_def is_space_def is_digit_def bindE_def)

lemma Decimal_str_huge: "Decimal_str ''9.9e999999'' = Inr (Fin False 99 999998)"
  by (simp add: Decimal_str_def strip_def split_sign_def split_frac_def parse_exp_def
      digits_val_def is_space_def is_digit_def lower_def bindE_def)

lemma Decimal_str_zero_huge: "Decimal_str ''0e999998'' = Inr (Fin False 0 999998)"
  by (simp add: Decimal_str_def strip_def split_sign_def split_frac_def parse_exp_def
      digits_val_def is_space_def is_digit_def lower_def bindE_def)

lemma net_amount_expr_minus_538_10:
  "net_amount_expr (sample_item description ''-538.10'') = Inr (Fin True 53810 (- 2))"
  by (simp del: dec_fix.simps
      add: net_amount_expr_def sample_item_def getitem_def bindE_def Decimal_str_minus_538_10
        Decimal_int_def dec_sub_def add_exact_def dec_fix_small)

lemma net_amount_expr_29_digits:
  "net_amount_expr (sample_item description ''1.0000000000000000000000000001'') =
   Inr (Fin False 1000000000000000000000000000 (- 27))"
proof -
  have r: "round_half_even 10000000000000000000000000001 (Suc 0) = 1000000000000000000000000000"
    by (simp add: round_half_even_def)
  have f: "dec_fix (Fin False 10000000000000000000000000001 (- 28)) =
      Inr (Fin False 1000000000000000000000000000 (- 27))"
    using dec_fix_round [of 0 10000000000000000000000000001 "- 28" False]
    unfolding r by (simp add: prec_def Etiny_def Etop_def Emin_def Emax_def)
  show ?thesis
    by (simp del: dec_fix.simps
        add: net_amount_expr_def sample_item_def getitem_def bindE_def Decimal_str_29_digits
          Decimal_int_def f dec_sub_def add_exact_def dec_fix_small)
qed

lemma net_amount_expr_huge:
  "net_amount_expr ((sample_item description ''9.9e999999'')(''discount'' \<mapsto> PStr ''0e999998'')) =
   Inr (Fin False 99 999998)"
proof -
  have "ndigits 99 = Suc 1" by (rule ndigits_unique) simp_all
  then have "in_context (Fin False 99 999998)"
    by (simp add: prec_def Etiny_def Emin_def Emax_def)
  then have f: "dec_fix (Fin False 99 999998) = Inr (Fin False 99 999998)"
    by (rule dec_fix_in_context)
  show ?thesis
    by (simp del: dec_fix.simps
        add: net_amount_expr_def sample_item_def getitem_def bindE_def Decimal_str_huge
          Decimal_str_zero_huge Decimal_int_def f dec_sub_def add_exact_def)
qed

lemma tax_huge:
  "dec_mul (Fin False 99 999998) (Decimal_from_float float_0_09) =
   Inr (Fin False 8909999999999999670263761686 999971)"
proof -
  have r: "round_half_even 89099999999999996702637616863285074941813945770263671875 (Suc 27) =
      8909999999999999670263761686"
    by (simp add: round_half_even_def)
  have "dec_mul (Fin False 99 999998) (Decimal_from_float float_0_09) =
      dec_fix (Fin False 89099999999999996702637616863285074941813945770263671875 999943)"
    by (simp del: dec_fix.simps add: rate_0_09)
  also have "\<dots> = Inr (Fin False 8909999999999999670263761686 999971)"
    using dec_fix_round [of 27 89099999999999996702637616863285074941813945770263671875 999943 False]
    unfolding r by (simp add: prec_def Etiny_def Etop_def Emin_def Emax_def)
  finally show ?thesis .
qed

lemma total_huge:
  "dec_add (Fin False 99 999998) (Fin False 8909999999999999670263761686 999971) = Inl Overflow"
proof -
  have "dec_add (Fin False 99 999998) (Fin False 8909999999999999670263761686 999971) =
      dec_fix (Fin False 107909999999999999670263761686 999971)"
    by (simp del: dec_fix.simps add: add_exact_def)
  also have "\<dots> = Inl Overflow"
    by (rule dec_fix_overflow [of 29]) (simp_all add: prec_def Etop_def Emax_def)
  finally show ?thesis .
qed

lemma sample_item_details_nth:
  "sample_item_details ! 0 = sample_item ''Formal Shirt (SH-05-42, Navy Blue, 42)'' ''538.10''"
  "sample_item_details ! 1 = sample_item ''Shipping Charges'' ''30.96''"
  by (simp_all add: sample_item_details_def)

lemma compute_item_sample_538_10:
  assumes "same_state_and_city billing shipping = Inr True"
  shows "compute_item billing shipping (sample_item description ''538.10'') =
    ((sample_item description ''538.10'')
       (''net_amount'' \<mapsto> PDec (Fin False 53810 (- 2)), ''tax_type'' \<mapsto> PStr ''CGST'',
        ''tax_rate'' \<mapsto> PDec (Decimal_from_float float_0_09),
        ''tax_amount'' \<mapsto> PDec (Fin False 4842899999999999820776697135 (- 26)),
        ''total_amount'' \<mapsto> PDec (Fin False 5865289999999999982077669714 (- 25)),
        ''tax_amount_sgst'' \<mapsto> PDec (Fin False 4842899999999999820776697135 (- 26)),
        ''total_amount_sgst'' \<mapsto> PDec (Fin False 5865289999999999982077669714 (- 25))), None)"
  using net_amount_expr_sample_538_10 assms tax_538_10_cgst total_538_10_cgst
  by (rule compute_item_cgst)

lemma compute_item_sample_30_96:
  assumes "same_state_and_city billing shipping = Inr True"
  shows "compute_item billing shipping (sample_item description ''30.96'') =
    ((sample_item description ''30.96'')
       (''net_amount'' \<mapsto> PDec (Fin False 3096 (- 2)), ''tax_type'' \<mapsto> PStr ''CGST'',
        ''tax_rate'' \<mapsto> PDec (Decimal_from_float float_0_09),
        ''tax_amount'' \<mapsto> PDec (Fin False 2786399999999999896882485473 (- 27)),
        ''total_amount'' \<mapsto> PDec (Fin False 3374639999999999989688248547 (- 26)),
        ''tax_amount_sgst'' \<mapsto> PDec (Fin False 2786399999999999896882485473 (- 27)),
        ''total_amount_sgst'' \<mapsto> PDec (Fin False 3374639999999999989688248547 (- 26))), None)"
  using net_amount_expr_sample_30_96 assms tax_30_96_cgst total_30_96_cgst
  by (rule compute_item_cgst)

lemma compute_item_sample_538_10_igst:
  assumes "same_state_and_city billing shipping = Inr False"
  shows "compute_item billing shipping (sample_item description ''538.10'') =
    ((sample_item description ''538.10'')
       (''net_amount'' \<mapsto> PDec (Fin False 53810 (- 2)), ''tax_type'' \<mapsto> PStr ''IGST'',
        ''tax_rate'' \<mapsto> PDec (Decimal_from_float float_0_18),
        ''tax_amount'' \<mapsto> PDec (Fin False 9685799999999999641553394270 (- 26)),
        ''total_amount'' \<mapsto> PDec (Fin False 6349579999999999964155339427 (- 25)),
        ''tax_amount_sgst'' \<mapsto> PDec (Decimal_int 0),
        ''total_amount_sgst'' \<mapsto> PDec (Decimal_int 0)), None)"
  using net_amount_expr_sample_538_10 assms tax_538_10_igst total_538_10_igst
  by (rule compute_item_igst)

lemma compute_items_sample:
  assumes "same_state_and_city billing shipping = Inr True"
  shows "snd (compute_items billing shipping sample_item_details) = None"
  by (simp add: sample_item_details_def compute_item_sample_538_10 [OF assms]
      compute_item_sample_30_96 [OF assms])

section \<open>No error for inputs of moderate size\<close>

lemma rate_mag:
  "mag_le 0 (Decimal_from_float float_0_09)" "mag_le 0 (Decimal_from_float float_0_18)"
proof -
  have "899999999999999966693309261245303787291049957275390625 < (10::nat) ^ 55" by simp
  then have "ndigits 899999999999999966693309261245303787291049957275390625 \<le> 55"
    by (simp add: ndigits_le_iff)
  then show "mag_le 0 (Decimal_from_float float_0_09)"
    by (simp add: rate_0_09)
  have "179999999999999993338661852249060757458209991455078125 < (10::nat) ^ 54" by simp
  then have "ndigits 179999999999999993338661852249060757458209991455078125 \<le> 54"
    by (simp add: ndigits_le_iff)
  then show "mag_le 0 (Decimal_from_float float_0_18)"
    by (simp add: rate_0_18)
qed

lemma Etiny_le_0: "Etiny \<le> 0"
  by (simp add: Etiny_def Emin_def prec_def)

lemma branch_succeeds:
  assumes net: "mag_le N net" and N: "0 \<le> N" "N + 2 \<le> Emax"
    and rate: "mag_le 0 rate"
  shows "\<exists>tax_amount total_amount.
    dec_mul net rate = Inr tax_amount \<and> dec_add net tax_amount = Inr total_amount"
proof -
  have "Etiny \<le> N + 0" "N + 0 \<le> Emax" using N Etiny_le_0 by simp_all
  from dec_mul_total [OF net rate this] obtain tax_amount where
    t: "dec_mul net rate = Inr tax_amount" and mt: "mag_le (N + 1) tax_amount" by auto
  have mn: "mag_le (N + 1) net" using net by (rule mag_le_mono) simp
  have "Etiny \<le> N + 1 + 1" "N + 1 + 1 \<le> Emax" using N Etiny_le_0 by simp_all
  from dec_add_total [OF mn mt this] obtain total_amount where
    "dec_add net tax_amount = Inr total_amount" by auto
  with t show ?thesis by blast
qed

lemma net_amount_expr_succeeds:
  assumes "item ''unit_price'' = Some up" "Decimal up = Inr p"
    "item ''quantity'' = Some qv" "Decimal qv = Inr q"
    "item ''discount'' = Some dv" "Decimal dv = Inr d"
    and m: "mag_le B p" "mag_le B q" "mag_le B d" and B: "0 \<le> B" "2 * B + 2 \<le> Emax"
  shows "\<exists>net. net_amount_expr item = Inr net \<and> mag_le (2 * B + 3) net"
proof -
  have "Etiny \<le> B + B" "B + B \<le> Emax" using B Etiny_le_0 by simp_all
  from dec_mul_total [OF m(1,2) this] obtain pq where
    pq: "dec_mul p q = Inr pq" and mpq: "mag_le (B + B + 1) pq" by auto
  have md: "mag_le (B + B + 1) d" using m(3) by (rule mag_le_mono) (use B in simp)
  have "Etiny \<le> B + B + 1 + 1" "B + B + 1 + 1 \<le> Emax" using B Etiny_le_0 by simp_all
  from dec_sub_total [OF mpq md this] obtain net where
    net: "dec_sub pq d = Inr net" and mnet: "mag_le (B + B + 1 + 2) net" by auto
  have "net_amount_expr item = Inr net"
    using assms(1-6) pq net by (simp add: net_amount_expr_def getitem_def bindE_def)
  moreover have "mag_le (2 * B + 3) net" using mnet by (rule mag_le_mono) simp
  ultimately show ?thesis by blast
qed

lemma compute_item_succeeds:
  assumes "item ''unit_price'' = Some up" "Decimal up = Inr p"
    "item ''quantity'' = Some qv" "Decimal qv = Inr q"
    "item ''discount'' = Some dv" "Decimal dv = Inr d"
    and m: "mag_le B p" "mag_le B q" "mag_le B d" and B: "0 \<le> B" "2 * B + 5 \<le> Emax"
    and same: "same_state_and_city billing shipping = Inr same"
  shows "snd (compute_item billing shipping item) = None"
proof -
  have "2 * B + 2 \<le> Emax" using B by simp
  from net_amount_expr_succeeds [OF assms(1-6) m B(1) this] obtain net where
    net: "net_amount_expr item = Inr net" and mnet: "mag_le (2 * B + 3) net" by auto
  have N: "0 \<le> 2 * B + 3" "2 * B + 3 + 2 \<le> Emax" using B by simp_all
  show ?thesis
  proof (cases same)
    case True
    from branch_succeeds [OF mnet N rate_mag(1)] obtain tax_amount total_amount where
      "dec_mul net (Decimal_from_float float_0_09) = Inr tax_amount"
      "dec_add net tax_amount = Inr total_amount" by auto
    with net same True show ?thesis by (simp add: compute_item_cgst)
  next
    case False
    from branch_succeeds [OF mnet N rate_mag(2)] obtain tax_amount total_amount where
      "dec_mul net (Decimal_from_float float_0_18) = Inr tax_amount"
      "dec_add net tax_amount = Inr total_amount" by auto
    with net same False show ?thesis by (simp add: compute_item_igst)
  qed
qed

lemma compute_item_not_numeric:
  assumes "Decimal v = Inl e"
  shows "item ''unit_price'' = Some v \<Longrightarrow> compute_item billing shipping item = (item, Some e)"
    and "item ''unit_price'' = Some up \<Longrightarrow> Decimal up = Inr p \<Longrightarrow> item ''quantity'' = Some v \<Longrightarrow>
      compute_item billing shipping item = (item, Some e)"
    and "item ''unit_price'' = Some up \<Longrightarrow> Decimal up = Inr p \<Longrightarrow> item ''quantity'' = Some qv \<Longrightarrow>
      Decimal qv = Inr q \<Longrightarrow> dec_mul p q = Inr pq \<Longrightarrow> item ''discount'' = Some v \<Longrightarrow>
      compute_item billing shipping item = (item, Some e)"
  using assms
  by (simp_all add: compute_item_net_error net_amount_expr_def getitem_def bindE_def)

section \<open>The tax amounts on the sample data\<close>

text \<open>
  C5. Scenario A, the first item of the sample invoice (unit price \<^verbatim>\<open>'538.10'\<close>,
  quantity 1, discount 0, billing and shipping both in BENGALURU, KARNATAKA): the net
  amount is 538.10 and the regime is CGST, but the tax amount is
  48.42899999999999820776697135 and the total 586.5289999999999982077669714, not
  48.429 and 586.529, because the rate is \<^verbatim>\<open>Decimal(0.09)\<close>, the binary double.
\<close>

theorem scenario_A_not_exact:
  "snd (compute_item sample_billing_details sample_shipping_details (sample_item_details ! 0)) = None
   \<and> fst (compute_item sample_billing_details sample_shipping_details (sample_item_details ! 0))
         ''net_amount'' = Some (PDec (Fin False 53810 (- 2)))
   \<and> fst (compute_item sample_billing_details sample_shipping_details (sample_item_details ! 0))
         ''tax_type'' = Some (PStr ''CGST'')
   \<and> fst (compute_item sample_billing_details sample_shipping_details (sample_item_details ! 0))
         ''tax_amount'' = Some (PDec (Fin False 4842899999999999820776697135 (- 26)))
   \<and> fst (compute_item sample_billing_details sample_shipping_details (sample_item_details ! 0))
         ''total_amount'' = Some (PDec (Fin False 5865289999999999982077669714 (- 25)))
   \<and> dec_val (Fin False 4842899999999999820776697135 (- 26)) \<noteq> 48429 / 1000
   \<and> dec_val (Fin False 5865289999999999982077669714 (- 25)) \<noteq> 586529 / 1000"
  unfolding sample_item_details_nth
  by (simp add: compute_item_sample_538_10 [OF same_state_and_city_sample] power_int_minus)

text \<open>
  C1. The second item of the sample invoice (unit price \<^verbatim>\<open>'30.96'\<close>, same state and
  city): the regime is CGST and the two tax components are equal, but each is
  2.786399999999999896882485473, which is not 9 percent of the net amount 30.96.
\<close>

theorem cgst_tax_amount_not_nine_percent:
  "fst (compute_item sample_billing_details sample_shipping_details (sample_item_details ! 1))
         ''net_amount'' = Some (PDec (Fin False 3096 (- 2)))
   \<and> fst (compute_item sample_billing_details sample_shipping_details (sample_item_details ! 1))
         ''tax_type'' = Some (PStr ''CGST'')
   \<and> fst (compute_item sample_billing_details sample_shipping_details (sample_item_details ! 1))
         ''tax_amount'' = Some (PDec (Fin False 2786399999999999896882485473 (- 27)))
   \<and> fst (compute_item sample_billing_details sample_shipping_details (sample_item_details ! 1))
         ''tax_amount_sgst'' = Some (PDec (Fin False 2786399999999999896882485473 (- 27)))
   \<and> dec_val (Fin False 2786399999999999896882485473 (- 27))
        \<noteq> dec_val (Fin False 3096 (- 2)) * (9 / 100)"
  unfolding sample_item_details_nth
  by (simp add: compute_item_sample_30_96 [OF same_state_and_city_sample] power_int_minus)

text \<open>
  C2. Scenario B, the first sample item shipped to another state (MAHARASHTRA): the
  regime is IGST and the two parallel fields are zero, but the tax amount is
  96.85799999999999641553394270, which is not 18 percent of the net amount 538.10.
\<close>

theorem igst_tax_amount_not_eighteen_percent:
  "fst (compute_item sample_billing_details
          (sample_shipping_details(''state'' \<mapsto> PStr ''MAHARASHTRA'')) (sample_item_details ! 0))
         ''net_amount'' = Some (PDec (Fin False 53810 (- 2)))
   \<and> fst (compute_item sample_billing_details
          (sample_shipping_details(''state'' \<mapsto> PStr ''MAHARASHTRA'')) (sample_item_details ! 0))
         ''tax_type'' = Some (PStr ''IGST'')
   \<and> fst (compute_item sample_billing_details
          (sample_shipping_details(''state'' \<mapsto> PStr ''MAHARASHTRA'')) (sample_item_details ! 0))
         ''tax_amount'' = Some (PDec (Fin False 9685799999999999641553394270 (- 26)))
   \<and> fst (compute_item sample_billing_details
          (sample_shipping_details(''state'' \<mapsto> PStr ''MAHARASHTRA'')) (sample_item_details ! 0))
         ''tax_amount_sgst'' = Some (PDec (Fin False 0 0))
   \<and> fst (compute_item sample_billing_details
          (sample_shipping_details(''state'' \<mapsto> PStr ''MAHARASHTRA'')) (sample_item_details ! 0))
         ''total_amount_sgst'' = Some (PDec (Fin False 0 0))
   \<and> dec_val (Fin False 9685799999999999641553394270 (- 26))
        \<noteq> dec_val (Fin False 53810 (- 2)) * (18 / 100)"
  unfolding sample_item_details_nth
  by (simp add: compute_item_sample_538_10_igst [OF same_state_and_city_other_state]
      Decimal_int_def power_int_minus)

section \<open>The net amount\<close>

text \<open>
  C4, as the code has it. When the three inputs convert to finite Decimals and both the
  exact product \<open>unit_price * quantity\<close> and the exact difference with the discount fit
  the context (at most 28 significant digits, exponent in range), the stored
  \<^verbatim>\<open>net_amount\<close> is exactly \<open>unit_price * quantity - discount\<close>; quantity 1 and
  discount 0 are included. Nothing is said here about the tax amounts.
\<close>

theorem net_amount_exact_within_precision:
  assumes "item ''unit_price'' = Some up" "Decimal up = Inr (Fin s1 c1 e1)"
    "item ''quantity'' = Some qv" "Decimal qv = Inr (Fin s2 c2 e2)"
    "item ''discount'' = Some dv" "Decimal dv = Inr (Fin s3 c3 e3)"
    "in_context (Fin (s1 \<noteq> s2) (c1 * c2) (e1 + e2))"
    "in_context (add_exact (s1 \<noteq> s2) (c1 * c2) (e1 + e2) (\<not> s3) c3 e3)"
  shows "\<exists>net. fst (compute_item billing shipping item) ''net_amount'' = Some (PDec net)
           \<and> dec_val net = dec_val (Fin s1 c1 e1) * dec_val (Fin s2 c2 e2) - dec_val (Fin s3 c3 e3)"
proof -
  define net where "net = add_exact (s1 \<noteq> s2) (c1 * c2) (e1 + e2) (\<not> s3) c3 e3"
  have f1: "dec_fix (Fin (s1 \<noteq> s2) (c1 * c2) (e1 + e2)) = Inr (Fin (s1 \<noteq> s2) (c1 * c2) (e1 + e2))"
    using assms(7) by (rule dec_fix_in_context)
  have f2: "dec_fix net = Inr net"
    using assms(8) unfolding net_def by (rule dec_fix_in_context)
  have "net_amount_expr item = Inr net"
    by (simp only: net_amount_expr_Fin [OF assms(1-6)] f1 bindE_def sum.case dec_sub_Fin
        f2 [unfolded net_def] net_def)
  then have "fst (compute_item billing shipping item) ''net_amount'' = Some (PDec net)"
    by (rule compute_item_net_amount)
  moreover have "dec_val net = dec_val (Fin s1 c1 e1) * dec_val (Fin s2 c2 e2) - dec_val (Fin s3 c3 e3)"
    unfolding net_def dec_val_add_exact dec_val_mul by simp
  ultimately show ?thesis by blast
qed

text \<open>The first sample item: 538.10 times 1 minus 0 is stored as 538.10.\<close>

theorem net_amount_exact_within_precision_witness:
  "\<exists>net. fst (compute_item sample_billing_details sample_shipping_details (sample_item_details ! 0))
            ''net_amount'' = Some (PDec net)
         \<and> dec_val net = 5381 / 10"
proof -
  have c1: "in_context (Fin (False \<noteq> False) (53810 * 1) (- 2 + 0))"
    by (rule in_context_small) simp_all
  have "add_exact (False \<noteq> False) (53810 * 1) (- 2 + 0) (\<not> False) 0 0 = Fin False 53810 (- 2)"
    by (simp add: add_exact_def)
  moreover have "in_context (Fin False 53810 (- 2))"
    by (rule in_context_small) simp_all
  ultimately have c2: "in_context (add_exact (False \<noteq> False) (53810 * 1) (- 2 + 0) (\<not> False) 0 0)"
    by simp
  have "\<exists>net. fst (compute_item sample_billing_details sample_shipping_details
            (sample_item ''Formal Shirt (SH-05-42, Navy Blue, 42)'' ''538.10'')) ''net_amount''
            = Some (PDec net)
         \<and> dec_val net = dec_val (Fin False 53810 (- 2)) * dec_val (Fin False 1 0)
             - dec_val (Fin False 0 0)"
    using c1 c2
    by (intro net_amount_exact_within_precision
          [where up = "PStr ''538.10''" and qv = "PInt 1" and dv = "PInt 0"])
      (simp_all add: sample_item_def Decimal_str_538_10 Decimal_int_def)
  then show ?thesis
    unfolding sample_item_details_nth by (simp add: power_int_minus)
qed

text \<open>
  The claim as stated fails twice. A unit price of 29 significant digits, with
  quantity 1 and discount 0, is rounded to 28 digits by the multiplication, so the net
  amount is not the price; and on the first sample item the tax amount is not 9 percent
  of the net amount.
\<close>

theorem net_amount_rounded_counterexample:
  "fst (compute_item sample_billing_details sample_shipping_details
          (sample_item ''Gauge block'' ''1.0000000000000000000000000001'')) ''net_amount''
     = Some (PDec (Fin False 1000000000000000000000000000 (- 27)))
   \<and> Decimal (PStr ''1.0000000000000000000000000001'')
     = Inr (Fin False 10000000000000000000000000001 (- 28))
   \<and> dec_val (Fin False 1000000000000000000000000000 (- 27))
     \<noteq> dec_val (Fin False 10000000000000000000000000001 (- 28)) * dec_val (Decimal_int 1)
       - dec_val (Decimal_int 0)
   \<and> fst (compute_item sample_billing_details sample_shipping_details (sample_item_details ! 0))
        ''tax_amount'' = Some (PDec (Fin False 4842899999999999820776697135 (- 26)))
   \<and> dec_val (Fin False 4842899999999999820776697135 (- 26))
     \<noteq> dec_val (Fin False 53810 (- 2)) * (9 / 100)"
  unfolding sample_item_details_nth
  by (simp add: compute_item_net_amount [OF net_amount_expr_29_digits]
      compute_item_sample_538_10 [OF same_state_and_city_sample]
      Decimal_str_29_digits Decimal_int_def power_int_minus)

section \<open>Running the computation twice\<close>

text \<open>
  C9. Running \<^verbatim>\<open>_compute_item_details\<close> on the state a first run has left gives the
  same state and the same outcome (the same exception, if the first run raised one):
  every derived field is computed from the three input fields and the two parties, which
  no run changes.
\<close>

theorem compute_item_details_idempotent:
  "compute_item_details (fst (compute_item_details self)) = compute_item_details self"
proof -
  obtain items' r where
    c: "compute_items (billing_details self) (shipping_details self) (item_details self) = (items', r)"
    by (cases "compute_items (billing_details self) (shipping_details self) (item_details self)")
  then have "compute_items (billing_details self) (shipping_details self) items' = (items', r)"
    using compute_items_idempotent [of "billing_details self" "shipping_details self" "item_details self"]
    by simp
  with c show ?thesis by (simp add: compute_item_details_def)
qed

section \<open>What the computation leaves alone\<close>

text \<open>
  C10. \<^verbatim>\<open>_compute_item_details\<close> changes nothing of the generator but the items; it
  keeps their number; and in each item it leaves \<^verbatim>\<open>description\<close>, \<^verbatim>\<open>unit_price\<close>,
  \<^verbatim>\<open>quantity\<close> and \<^verbatim>\<open>discount\<close>, and every key other than the seven derived ones,
  as they were. This holds also when the run ends in an exception. The item dicts are
  taken to be objects of their own, distinct from each other and from the party dicts.
\<close>

theorem compute_item_details_frame:
  "seller_details (fst (compute_item_details self)) = seller_details self
   \<and> billing_details (fst (compute_item_details self)) = billing_details self
   \<and> shipping_details (fst (compute_item_details self)) = shipping_details self
   \<and> order_details (fst (compute_item_details self)) = order_details self
   \<and> invoice_details (fst (compute_item_details self)) = invoice_details self
   \<and> reverse_charge (fst (compute_item_details self)) = reverse_charge self
   \<and> signature_image_path (fst (compute_item_details self)) = signature_image_path self
   \<and> output_filename (fst (compute_item_details self)) = output_filename self
   \<and> length (item_details (fst (compute_item_details self))) = length (item_details self)
   \<and> (\<forall>i < length (item_details self).
        (item_details (fst (compute_item_details self)) ! i) ''description''
          = (item_details self ! i) ''description''
        \<and> (item_details (fst (compute_item_details self)) ! i) ''unit_price''
          = (item_details self ! i) ''unit_price''
        \<and> (item_details (fst (compute_item_details self)) ! i) ''quantity''
          = (item_details self ! i) ''quantity''
        \<and> (item_details (fst (compute_item_details self)) ! i) ''discount''
          = (item_details self ! i) ''discount''
        \<and> (\<forall>k. k \<notin> set [''net_amount'', ''tax_type'', ''tax_rate'', ''tax_amount'',
                ''total_amount'', ''tax_amount_sgst'', ''total_amount_sgst''] \<longrightarrow>
              (item_details (fst (compute_item_details self)) ! i) k = (item_details self ! i) k))"
proof -
  have items: "item_details (fst (compute_item_details self)) =
      fst (compute_items (billing_details self) (shipping_details self) (item_details self))"
    by (simp add: compute_item_details_def split: prod.splits)
  have rest: "seller_details (fst (compute_item_details self)) = seller_details self
   \<and> billing_details (fst (compute_item_details self)) = billing_details self
   \<and> shipping_details (fst (compute_item_details self)) = shipping_details self
   \<and> order_details (fst (compute_item_details self)) = order_details self
   \<and> invoice_details (fst (compute_item_details self)) = invoice_details self
   \<and> reverse_charge (fst (compute_item_details self)) = reverse_charge self
   \<and> signature_image_path (fst (compute_item_details self)) = signature_image_path self
   \<and> output_filename (fst (compute_item_details self)) = output_filename self"
    by (simp add: compute_item_details_def split: prod.splits)
  have len: "length (item_details (fst (compute_item_details self))) = length (item_details self)"
    unfolding items by (rule compute_items_length)
  have keys: "\<forall>i < length (item_details self).
        (item_details (fst (compute_item_details self)) ! i) ''description''
          = (item_details self ! i) ''description''
        \<and> (item_details (fst (compute_item_details self)) ! i) ''unit_price''
          = (item_details self ! i) ''unit_price''
        \<and> (item_details (fst (compute_item_details self)) ! i) ''quantity''
          = (item_details self ! i) ''quantity''
        \<and> (item_details (fst (compute_item_details self)) ! i) ''discount''
          = (item_details self ! i) ''discount''
        \<and> (\<forall>k. k \<notin> set [''net_amount'', ''tax_type'', ''tax_rate'', ''tax_amount'',
                ''total_amount'', ''tax_amount_sgst'', ''total_amount_sgst''] \<longrightarrow>
              (item_details (fst (compute_item_details self)) ! i) k = (item_details self ! i) k)"
    unfolding items by (simp add: compute_items_other_keys)
  from rest len keys show ?thesis by blast
qed

text \<open>On the sample invoice.\<close>

theorem compute_item_details_frame_witness:
  "seller_details (fst (compute_item_details sample_invoice)) = sample_seller_details
   \<and> billing_details (fst (compute_item_details sample_invoice)) = sample_billing_details
   \<and> length (item_details (fst (compute_item_details sample_invoice))) = 4
   \<and> (item_details (fst (compute_item_details sample_invoice)) ! 0) ''unit_price''
       = Some (PStr ''538.10'')
   \<and> (item_details (fst (compute_item_details sample_invoice)) ! 0) ''quantity'' = Some (PInt 1)"
  using compute_item_details_frame [of sample_invoice]
  by (simp add: sample_invoice_def sample_item_details_def sample_item_def)

section \<open>Absent state or city\<close>

lemma same_state_and_city_no_state:
  "billing ''state'' = None \<or> shipping ''state'' = None \<Longrightarrow>
   same_state_and_city billing shipping = Inl (KeyError ''state'')"
  by (auto simp: same_state_and_city_def getitem_def bindE_def split: option.splits)

lemma same_state_and_city_no_city:
  "billing ''state'' = Some bs \<Longrightarrow> shipping ''state'' = Some ss \<Longrightarrow> py_eq bs ss = Inr True \<Longrightarrow>
   billing ''city'' = None \<or> shipping ''city'' = None \<Longrightarrow>
   same_state_and_city billing shipping = Inl (KeyError ''city'')"
  by (auto simp: same_state_and_city_def getitem_def bindE_def split: option.splits)

lemma compute_items_jurisdiction_error:
  assumes "net_amount_expr item = Inr net" "same_state_and_city billing shipping = Inl e"
  shows "compute_items billing shipping (item # items) =
    (item(''net_amount'' \<mapsto> PDec net) # items, Some e)"
  using compute_item_jurisdiction_error [OF assms] by simp

text \<open>
  C6, as the code has it. There is no jurisdiction check and no MissingJurisdiction: a
  missing \<^verbatim>\<open>'state'\<close> key, or a missing \<^verbatim>\<open>'city'\<close> key when the states are equal,
  makes the dict lookup in the condition raise KeyError. That happens in the first pass
  of the loop, after the first item's \<^verbatim>\<open>net_amount\<close> has been computed and stored and
  before any of its tax fields is; the later items are untouched.
\<close>

theorem absent_jurisdiction_key_raises_KeyError:
  assumes "net_amount_expr item = Inr net"
  shows "(billing ''state'' = None \<or> shipping ''state'' = None \<longrightarrow>
            compute_items billing shipping (item # items) =
              (item(''net_amount'' \<mapsto> PDec net) # items, Some (KeyError ''state'')))
       \<and> (billing ''state'' = Some bs \<and> shipping ''state'' = Some ss \<and> py_eq bs ss = Inr True
            \<and> (billing ''city'' = None \<or> shipping ''city'' = None) \<longrightarrow>
            compute_items billing shipping (item # items) =
              (item(''net_amount'' \<mapsto> PDec net) # items, Some (KeyError ''city'')))"
  using assms
  by (auto simp only: intro!: compute_items_jurisdiction_error same_state_and_city_no_state
      same_state_and_city_no_city)

text \<open>The sample invoice with the billing state, or the shipping city, deleted.\<close>

theorem absent_jurisdiction_key_raises_KeyError_witness:
  "compute_items (sample_billing_details(''state'' := None)) sample_shipping_details
      sample_item_details =
     ((sample_item_details ! 0)(''net_amount'' \<mapsto> PDec (Fin False 53810 (- 2)))
        # tl sample_item_details, Some (KeyError ''state''))
   \<and> compute_items sample_billing_details (sample_shipping_details(''city'' := None))
      sample_item_details =
     ((sample_item_details ! 0)(''net_amount'' \<mapsto> PDec (Fin False 53810 (- 2)))
        # tl sample_item_details, Some (KeyError ''city''))"
proof -
  have split_items: "sample_item_details = sample_item_details ! 0 # tl sample_item_details"
    by (simp add: sample_item_details_def)
  have net: "net_amount_expr (sample_item_details ! 0) = Inr (Fin False 53810 (- 2))"
    unfolding sample_item_details_nth by (rule net_amount_expr_sample_538_10)
  have a: "compute_items (sample_billing_details(''state'' := None)) sample_shipping_details
      (sample_item_details ! 0 # tl sample_item_details) =
     ((sample_item_details ! 0)(''net_amount'' \<mapsto> PDec (Fin False 53810 (- 2)))
        # tl sample_item_details, Some (KeyError ''state''))"
    using absent_jurisdiction_key_raises_KeyError
      [OF net, of "sample_billing_details(''state'' := None)" sample_shipping_details]
    by simp
  have b: "compute_items sample_billing_details (sample_shipping_details(''city'' := None))
      (sample_item_details ! 0 # tl sample_item_details) =
     ((sample_item_details ! 0)(''net_amount'' \<mapsto> PDec (Fin False 53810 (- 2)))
        # tl sample_item_details, Some (KeyError ''city''))"
    using absent_jurisdiction_key_raises_KeyError
      [OF net, of sample_billing_details "sample_shipping_details(''city'' := None)"
        _ "PStr ''KARNATAKA''" "PStr ''KARNATAKA''"]
    by (simp add: sample_billing_details_def sample_shipping_details_def)
  from a b show ?thesis using split_items by simp
qed

text \<open>
  The claim as stated fails on the sample invoice without the billing state: the
  exception is KeyError, and by then the first item, whose \<^verbatim>\<open>net_amount\<close> was
  \<^verbatim>\<open>None\<close>, holds 538.10. With the state present but \<^verbatim>\<open>None\<close> on both sides
  nothing is raised at all.
\<close>

theorem missing_jurisdiction_counterexample:
  "snd (compute_items (sample_billing_details(''state'' := None)) sample_shipping_details
         sample_item_details) = Some (KeyError ''state'')
   \<and> exc_name (KeyError ''state'') \<noteq> ''MissingJurisdiction''
   \<and> (sample_item_details ! 0) ''net_amount'' = Some PNone
   \<and> (fst (compute_items (sample_billing_details(''state'' := None)) sample_shipping_details
         sample_item_details) ! 0) ''net_amount'' = Some (PDec (Fin False 53810 (- 2)))
   \<and> snd (compute_items (sample_billing_details(''state'' \<mapsto> PNone))
         (sample_shipping_details(''state'' \<mapsto> PNone)) sample_item_details) = None"
proof -
  have e: "same_state_and_city (sample_billing_details(''state'' := None)) sample_shipping_details
      = Inl (KeyError ''state'')"
    by (rule same_state_and_city_no_state) simp
  have ci: "compute_item (sample_billing_details(''state'' := None)) sample_shipping_details
      (sample_item ''Formal Shirt (SH-05-42, Navy Blue, 42)'' ''538.10'') =
      ((sample_item ''Formal Shirt (SH-05-42, Navy Blue, 42)'' ''538.10'')
          (''net_amount'' \<mapsto> PDec (Fin False 53810 (- 2))), Some (KeyError ''state''))"
    using net_amount_expr_sample_538_10 e by (rule compute_item_jurisdiction_error)
  have c: "compute_items (sample_billing_details(''state'' := None)) sample_shipping_details
      sample_item_details =
      ((sample_item ''Formal Shirt (SH-05-42, Navy Blue, 42)'' ''538.10'')
          (''net_amount'' \<mapsto> PDec (Fin False 53810 (- 2))) # tl sample_item_details,
       Some (KeyError ''state''))"
    by (simp add: sample_item_details_def ci)
  have n: "same_state_and_city (sample_billing_details(''state'' \<mapsto> PNone))
      (sample_shipping_details(''state'' \<mapsto> PNone)) = Inr True"
    by (simp add: same_state_and_city_def sample_billing_details_def sample_shipping_details_def
        getitem_def bindE_def)
  have "(sample_item_details ! 0) ''net_amount'' = Some PNone"
    unfolding sample_item_details_nth by (simp add: sample_item_def)
  with c compute_items_sample [OF n] show ?thesis by simp
qed

section \<open>Negative and non-numeric amounts\<close>

lemma compute_item_cgst_total_error:
  assumes "net_amount_expr item = Inr net" "same_state_and_city billing shipping = Inr True"
    "dec_mul net (Decimal_from_float float_0_09) = Inr tax_amount"
    "dec_add net tax_amount = Inl e"
  shows "compute_item billing shipping item =
    (item(''net_amount'' \<mapsto> PDec net, ''tax_type'' \<mapsto> PStr ''CGST'',
          ''tax_rate'' \<mapsto> PDec (Decimal_from_float float_0_09),
          ''tax_amount'' \<mapsto> PDec tax_amount), Some e)"
  using assms by (simp add: compute_item_def cgst_branch_def)

text \<open>
  C7, as the code has it. There is no amount validation and no InvalidAmount. An input
  that \<^verbatim>\<open>Decimal()\<close> cannot convert (\<^verbatim>\<open>None\<close>, or a string that is no numeric
  literal) raises TypeError or InvalidOperation before anything is stored in the item.
  Numbers are accepted whatever their sign: when the three inputs are finite, of absolute
  value below \<open>10 ^ B\<close> with \<open>2 * B + 5 \<le> Emax\<close>, and the comparison of the parties
  evaluates, the item is computed without an exception.
\<close>

theorem no_amount_validation:
  "(item ''unit_price'' = Some up \<and> Decimal up = Inr p
      \<and> item ''quantity'' = Some qv \<and> Decimal qv = Inr q
      \<and> item ''discount'' = Some dv \<and> Decimal dv = Inr d
      \<and> mag_le B p \<and> mag_le B q \<and> mag_le B d \<and> 0 \<le> B \<and> 2 * B + 5 \<le> Emax
      \<and> same_state_and_city billing shipping = Inr same
      \<longrightarrow> snd (compute_item billing shipping item) = None)
   \<and> (item ''unit_price'' = Some up \<and> Decimal up = Inl e
      \<longrightarrow> compute_item billing shipping item = (item, Some e)
          \<and> (e = TypeError \<or> e = InvalidOperation))
   \<and> (item ''unit_price'' = Some up \<and> Decimal up = Inr p
      \<and> item ''quantity'' = Some qv \<and> Decimal qv = Inl e
      \<longrightarrow> compute_item billing shipping item = (item, Some e)
          \<and> (e = TypeError \<or> e = InvalidOperation))
   \<and> (item ''unit_price'' = Some up \<and> Decimal up = Inr p
      \<and> item ''quantity'' = Some qv \<and> Decimal qv = Inr q \<and> dec_mul p q = Inr pq
      \<and> item ''discount'' = Some dv \<and> Decimal dv = Inl e
      \<longrightarrow> compute_item billing shipping item = (item, Some e)
          \<and> (e = TypeError \<or> e = InvalidOperation))
   \<and> (snd (compute_item billing shipping item) = Some e \<longrightarrow> exc_name e \<noteq> ''InvalidAmount'')"
proof (intro conjI impI)
  assume "item ''unit_price'' = Some up \<and> Decimal up = Inr p
      \<and> item ''quantity'' = Some qv \<and> Decimal qv = Inr q
      \<and> item ''discount'' = Some dv \<and> Decimal dv = Inr d
      \<and> mag_le B p \<and> mag_le B q \<and> mag_le B d \<and> 0 \<le> B \<and> 2 * B + 5 \<le> Emax
      \<and> same_state_and_city billing shipping = Inr same"
  then show "snd (compute_item billing shipping item) = None"
    by (elim conjE) (rule compute_item_succeeds)
next
  assume a: "item ''unit_price'' = Some up \<and> Decimal up = Inl e"
  then show "compute_item billing shipping item = (item, Some e)"
    using compute_item_not_numeric(1) [of up e item] by simp
  from a show "e = TypeError \<or> e = InvalidOperation"
    by (blast dest: Decimal_error)
next
  assume a: "item ''unit_price'' = Some up \<and> Decimal up = Inr p
      \<and> item ''quantity'' = Some qv \<and> Decimal qv = Inl e"
  then show "compute_item billing shipping item = (item, Some e)"
    using compute_item_not_numeric(2) [of qv e item up p] by simp
  from a show "e = TypeError \<or> e = InvalidOperation"
    by (blast dest: Decimal_error)
next
  assume a: "item ''unit_price'' = Some up \<and> Decimal up = Inr p
      \<and> item ''quantity'' = Some qv \<and> Decimal qv = Inr q \<and> dec_mul p q = Inr pq
      \<and> item ''discount'' = Some dv \<and> Decimal dv = Inl e"
  then show "compute_item billing shipping item = (item, Some e)"
    using compute_item_not_numeric(3) [of dv e item up p qv q pq] by simp
  from a show "e = TypeError \<or> e = InvalidOperation"
    by (blast dest: Decimal_error)
next
  show "exc_name e \<noteq> ''InvalidAmount''"
    by (rule exc_name_not_in_taxonomy)
qed

text \<open>A refund line of -538.10 is computed; a unit price \<^verbatim>\<open>'abc'\<close> raises InvalidOperation.\<close>

theorem no_amount_validation_witness:
  "snd (compute_item sample_billing_details sample_shipping_details
         (sample_item ''Refund'' ''-538.10'')) = None
   \<and> compute_item sample_billing_details sample_shipping_details (sample_item ''Typo'' ''abc'')
       = (sample_item ''Typo'' ''abc'', Some InvalidOperation)"
proof -
  have n5: "ndigits 53810 \<le> 5" by (simp add: ndigits_le_iff)
  have n1: "ndigits 1 \<le> 1" by (simp add: ndigits_le_iff)
  have m: "mag_le 3 (Fin True 53810 (- 2))" "mag_le 3 (Fin False 1 0)" "mag_le 3 (Fin False 0 0)"
    using n5 n1 by simp_all
  have a: "snd (compute_item sample_billing_details sample_shipping_details
         (sample_item ''Refund'' ''-538.10'')) = None"
    using no_amount_validation
      [of "sample_item ''Refund'' ''-538.10''" "PStr ''-538.10''" "Fin True 53810 (- 2)"
        "PInt 1" "Fin False 1 0" "PInt 0" "Fin False 0 0" 3
        sample_billing_details sample_shipping_details True]
      m same_state_and_city_sample
    by (simp add: sample_item_def Decimal_str_minus_538_10 Decimal_int_def Emax_def)
  have b: "compute_item sample_billing_details sample_shipping_details (sample_item ''Typo'' ''abc'')
       = (sample_item ''Typo'' ''abc'', Some InvalidOperation)"
    using no_amount_validation
      [of "sample_item ''Typo'' ''abc''" "PStr ''abc''" _ _ _ _ _ _
        sample_billing_details sample_shipping_details _ InvalidOperation]
    by (simp add: sample_item_def Decimal_str_abc)
  from a b show ?thesis by simp
qed

text \<open>
  The claim as stated fails three times: a negative unit price is computed, with a
  negative net amount; a non-numeric one raises InvalidOperation; and a non-negative
  numeric one, 9.9E+999999, raises Overflow when the total is added up.
\<close>

theorem invalid_amount_counterexample:
  "snd (compute_item sample_billing_details sample_shipping_details
         (sample_item ''Refund'' ''-538.10'')) = None
   \<and> fst (compute_item sample_billing_details sample_shipping_details
         (sample_item ''Refund'' ''-538.10'')) ''net_amount'' = Some (PDec (Fin True 53810 (- 2)))
   \<and> dec_val (Fin True 53810 (- 2)) < 0
   \<and> snd (compute_item sample_billing_details sample_shipping_details
         (sample_item ''Typo'' ''abc'')) = Some InvalidOperation
   \<and> exc_name InvalidOperation \<noteq> ''InvalidAmount''
   \<and> snd (compute_item sample_billing_details sample_shipping_details
         ((sample_item ''Bulk'' ''9.9e999999'')(''discount'' \<mapsto> PStr ''0e999998'')))
       = Some Overflow"
proof -
  have n5: "ndigits 53810 \<le> 5" by (simp add: ndigits_le_iff)
  have n1: "ndigits 1 \<le> 1" by (simp add: ndigits_le_iff)
  have m: "mag_le 3 (Fin True 53810 (- 2))" "mag_le 3 (Fin False 1 0)" "mag_le 3 (Fin False 0 0)"
    using n5 n1 by simp_all
  have "snd (compute_item sample_billing_details sample_shipping_details
         (sample_item ''Refund'' ''-538.10'')) = None"
    by (rule compute_item_succeeds
          [OF _ _ _ _ _ _ m _ _ same_state_and_city_sample,
            where up = "PStr ''-538.10''" and qv = "PInt 1" and dv = "PInt 0"])
      (simp_all add: sample_item_def Decimal_str_minus_538_10 Decimal_int_def Emax_def)
  moreover have "fst (compute_item sample_billing_details sample_shipping_details
         (sample_item ''Refund'' ''-538.10'')) ''net_amount'' = Some (PDec (Fin True 53810 (- 2)))"
    using net_amount_expr_minus_538_10 by (rule compute_item_net_amount)
  moreover have "dec_val (Fin True 53810 (- 2)) < 0"
    by (simp add: power_int_minus)
  moreover have "net_amount_expr (sample_item ''Typo'' ''abc'') = Inl InvalidOperation"
    by (simp add: net_amount_expr_def sample_item_def getitem_def bindE_def Decimal_str_abc)
  then have "snd (compute_item sample_billing_details sample_shipping_details
         (sample_item ''Typo'' ''abc'')) = Some InvalidOperation"
    by (simp add: compute_item_net_error)
  moreover have "snd (compute_item sample_billing_details sample_shipping_details
         ((sample_item ''Bulk'' ''9.9e999999'')(''discount'' \<mapsto> PStr ''0e999998'')))
       = Some Overflow"
    using compute_item_cgst_total_error
      [OF net_amount_expr_huge same_state_and_city_sample tax_huge total_huge]
    by simp
  ultimately show ?thesis by simp
qed

section \<open>The item table\<close>

lemma compute_item_details_items:
  "item_details (fst (compute_item_details self)) =
   fst (compute_items (billing_details self) (shipping_details self) (item_details self))"
  by (simp add: compute_item_details_def split: prod.splits)

lemma compute_item_details_outcome:
  "snd (compute_item_details self) =
   snd (compute_items (billing_details self) (shipping_details self) (item_details self))"
  by (simp add: compute_item_details_def split: prod.splits)

lemma create_item_details_table_rows:
  assumes "create_item_details_table self = Inr rows"
  shows "length rows = Suc (length (item_details self))" "rows ! 0 = table_header"
    "i < length (item_details self) \<Longrightarrow> item_row i (item_details self ! i) = Inr (rows ! Suc i)"
proof -
  from assms obtain body where body: "item_rows 0 (item_details self) = Inr body"
    and rows: "rows = table_header # body"
    by (auto simp: create_item_details_table_def bindE_def split: sum.splits)
  show "length rows = Suc (length (item_details self))"
    using item_rows_length [OF body] rows by simp
  show "rows ! 0 = table_header" using rows by simp
  show "item_row i (item_details self ! i) = Inr (rows ! Suc i)" if "i < length (item_details self)"
    using item_rows_nth [OF body that] rows by simp
qed

lemma create_item_details_table_total:
  assumes ok: "snd (compute_item_details self) = None"
    and d: "\<forall>item \<in> set (item_details self). item ''description'' \<noteq> None"
  shows "\<exists>rows. create_item_details_table (fst (compute_item_details self)) = Inr rows"
proof -
  let ?b = "billing_details self" and ?s = "shipping_details self"
  have ok': "snd (compute_items ?b ?s (item_details self)) = None"
    using ok by (simp add: compute_item_details_outcome)
  have items: "item_details (fst (compute_item_details self)) =
      map (\<lambda>item. fst (compute_item ?b ?s item)) (item_details self)"
    using compute_items_success [OF ok'] by (simp add: compute_item_details_items)
  have "\<exists>row. item_row index item' = Inr row"
    if "item' \<in> set (item_details (fst (compute_item_details self)))" for item' index
  proof -
    from that obtain item where it: "item \<in> set (item_details self)"
      and eq: "item' = fst (compute_item ?b ?s item)"
      unfolding items by auto
    from compute_items_success_each [OF ok' it]
    have s: "snd (compute_item ?b ?s item) = None" .
    have "item' ''description'' \<noteq> None"
      using d it unfolding eq by (simp add: compute_item_other_keys)
    with compute_item_success_keys [OF s] show ?thesis
      unfolding eq by (intro item_row_total) simp_all
  qed
  then obtain body where "item_rows 0 (item_details (fst (compute_item_details self))) = Inr body"
    using item_rows_total [of "item_details (fst (compute_item_details self))" 0] by blast
  then show ?thesis by (simp add: create_item_details_table_def bindE_def)
qed

text \<open>
  C8. The list handed to the table holds the header row and then one row for each item,
  in list order; row \<open>i + 1\<close> starts with the serial number \<open>i + 1\<close> and then shows the
  fields of item \<open>i\<close>. A run of \<^verbatim>\<open>_compute_item_details\<close> that raises nothing computes
  each item from that item and the two parties alone; and after such a run, when every
  item has a description, the table is built.
\<close>

theorem item_table_follows_input_order:
  "(create_item_details_table self = Inr rows \<longrightarrow>
      length rows = Suc (length (item_details self)) \<and> rows ! 0 = table_header
      \<and> (\<forall>i < length (item_details self).
            length (rows ! Suc i) = 9
          \<and> rows ! Suc i ! 0 = PInt (int i + 1)
          \<and> (item_details self ! i) ''description'' = Some (rows ! Suc i ! 1)
          \<and> (item_details self ! i) ''unit_price'' = Some (rows ! Suc i ! 2)
          \<and> (item_details self ! i) ''quantity'' = Some (rows ! Suc i ! 3)
          \<and> (item_details self ! i) ''net_amount'' = Some (rows ! Suc i ! 4)
          \<and> (item_details self ! i) ''tax_rate'' = Some (rows ! Suc i ! 5)
          \<and> (item_details self ! i) ''tax_type'' = Some (rows ! Suc i ! 6)
          \<and> (item_details self ! i) ''tax_amount'' = Some (rows ! Suc i ! 7)
          \<and> (item_details self ! i) ''total_amount'' = Some (rows ! Suc i ! 8)))
   \<and> (snd (compute_item_details self) = None \<longrightarrow>
        item_details (fst (compute_item_details self)) =
          map (\<lambda>item. fst (compute_item (billing_details self) (shipping_details self) item))
            (item_details self))
   \<and> (snd (compute_item_details self) = None
        \<and> (\<forall>item \<in> set (item_details self). item ''description'' \<noteq> None) \<longrightarrow>
        (\<exists>rows. create_item_details_table (fst (compute_item_details self)) = Inr rows))"
proof (intro conjI impI allI)
  assume t: "create_item_details_table self = Inr rows"
  show "length rows = Suc (length (item_details self))"
    using t by (rule create_item_details_table_rows)
  show "rows ! 0 = table_header"
    using t by (rule create_item_details_table_rows)
next
  fix i
  assume t: "create_item_details_table self = Inr rows" and i: "i < length (item_details self)"
  have r: "item_row i (item_details self ! i) = Inr (rows ! Suc i)"
    using t i by (rule create_item_details_table_rows)
  note c = item_row_cells [OF r]
  show "length (rows ! Suc i) = 9" using c by blast
  show "rows ! Suc i ! 0 = PInt (int i + 1)" using c by blast
  show "(item_details self ! i) ''description'' = Some (rows ! Suc i ! 1)" using c by blast
  show "(item_details self ! i) ''unit_price'' = Some (rows ! Suc i ! 2)" using c by blast
  show "(item_details self ! i) ''quantity'' = Some (rows ! Suc i ! 3)" using c by blast
  show "(item_details self ! i) ''net_amount'' = Some (rows ! Suc i ! 4)" using c by blast
  show "(item_details self ! i) ''tax_rate'' = Some (rows ! Suc i ! 5)" using c by blast
  show "(item_details self ! i) ''tax_type'' = Some (rows ! Suc i ! 6)" using c by blast
  show "(item_details self ! i) ''tax_amount'' = Some (rows ! Suc i ! 7)" using c by blast
  show "(item_details self ! i) ''total_amount'' = Some (rows ! Suc i ! 8)" using c by blast
next
  assume ok: "snd (compute_item_details self) = None"
  then have "snd (compute_items (billing_details self) (shipping_details self) (item_details self)) = None"
    by (simp add: compute_item_details_outcome)
  from compute_items_success [OF this]
  show "item_details (fst (compute_item_details self)) =
          map (\<lambda>item. fst (compute_item (billing_details self) (shipping_details self) item))
            (item_details self)"
    by (simp add: compute_item_details_items)
next
  assume "snd (compute_item_details self) = None
        \<and> (\<forall>item \<in> set (item_details self). item ''description'' \<noteq> None)"
  then show "\<exists>rows. create_item_details_table (fst (compute_item_details self)) = Inr rows"
    using create_item_details_table_total by blast
qed

text \<open>The sample invoice: five rows, the third one for the second item.\<close>

theorem item_table_follows_input_order_witness:
  "\<exists>rows. create_item_details_table (fst (compute_item_details sample_invoice)) = Inr rows
     \<and> length rows = 5 \<and> rows ! 0 = table_header
     \<and> rows ! 2 ! 0 = PInt 2
     \<and> rows ! 2 ! 1 = PStr ''Shipping Charges''
     \<and> rows ! 2 ! 4 = PDec (Fin False 3096 (- 2))"
proof -
  have ok: "snd (compute_item_details sample_invoice) = None"
    using compute_items_sample [OF same_state_and_city_sample]
    by (simp add: compute_item_details_outcome sample_invoice_def)
  have d: "\<forall>item \<in> set (item_details sample_invoice). item ''description'' \<noteq> None"
    by (simp add: sample_invoice_def sample_item_details_def sample_item_def)
  from item_table_follows_input_order [of sample_invoice] ok d
  obtain rows where rows: "create_item_details_table (fst (compute_item_details sample_invoice)) = Inr rows"
    by blast
  have items: "item_details (fst (compute_item_details sample_invoice)) =
      map (\<lambda>item. fst (compute_item sample_billing_details sample_shipping_details item))
        sample_item_details"
    using item_table_follows_input_order [of sample_invoice] ok
    by (simp add: sample_invoice_def)
  have len: "length (item_details (fst (compute_item_details sample_invoice))) = 4"
    unfolding items by (simp add: sample_item_details_def)
  have second: "item_details (fst (compute_item_details sample_invoice)) ! 1 =
      fst (compute_item sample_billing_details sample_shipping_details
        (sample_item ''Shipping Charges'' ''30.96''))"
    unfolding items by (simp add: sample_item_details_def)
  note t = item_table_follows_input_order [of "fst (compute_item_details sample_invoice)" rows]
  have "length rows = 5" "rows ! 0 = table_header"
    using t rows len by simp_all
  moreover have "rows ! Suc 1 ! 0 = PInt (int 1 + 1)
      \<and> (item_details (fst (compute_item_details sample_invoice)) ! 1) ''description''
          = Some (rows ! Suc 1 ! 1)
      \<and> (item_details (fst (compute_item_details sample_invoice)) ! 1) ''net_amount''
          = Some (rows ! Suc 1 ! 4)"
    using t rows len by simp
  then have "rows ! 2 ! 0 = PInt 2" "rows ! 2 ! 1 = PStr ''Shipping Charges''"
    "rows ! 2 ! 4 = PDec (Fin False 3096 (- 2))"
    unfolding second compute_item_sample_30_96 [OF same_state_and_city_sample]
    by (simp_all add: sample_item_def numeral_2_eq_2)
  ultimately show ?thesis using rows by blast
qed

section \<open>The grand total\<close>

lemma compute_item_success_total_amount:
  "snd (compute_item billing shipping item) = None \<Longrightarrow>
   \<exists>t. fst (compute_item billing shipping item) ''total_amount'' = Some (PDec t)"
  by (auto simp: compute_item_def cgst_branch_def igst_branch_def Let_def
      split: sum.splits if_splits)

lemma total_amounts_total:
  "(\<And>item. item \<in> set items \<Longrightarrow> \<exists>t. item ''total_amount'' = Some (PDec t)) \<Longrightarrow>
   \<exists>ds. total_amounts items = Inr ds \<and> length ds = length items"
proof (induction items)
  case Nil
  show ?case by simp
next
  case (Cons item items)
  from Cons.prems [of item] obtain t where t: "item ''total_amount'' = Some (PDec t)" by auto
  from Cons.IH Cons.prems obtain ds where
    ds: "total_amounts items = Inr ds" "length ds = length items" by auto
  with t show ?case by (simp add: getitem_def bindE_def)
qed

lemma add_exact_commute: "add_exact s1 c1 e1 s2 c2 e2 = add_exact s2 c2 e2 s1 c1 e1"
  by (simp add: add_exact_def Let_def min.commute add.commute conj_commute)

lemma dec_add_zero_commute: "dec_add d (Decimal_int 0) = dec_add (Decimal_int 0) d"
proof (cases d)
  case (Fin s c e)
  then show ?thesis
    by (simp del: dec_fix.simps add: Decimal_int_def add_exact_commute [of s c e])
next
  case (Inf s)
  then show ?thesis by (simp add: Decimal_int_def)
next
  case (NaN s sg p)
  then show ?thesis by (simp add: Decimal_int_def check_nans_def)
qed

lemma py_sum_start:
  "ds \<noteq> [] \<Longrightarrow> py_sum (PInt 0) ds = py_sum (PDec (Decimal_int 0)) ds"
  by (cases ds) (simp_all add: dec_add_zero_commute)

lemma py_sum_spec_total_from:
  "total_amounts items = Inr ds \<Longrightarrow>
   py_sum (PDec acc) ds = bindE (spec_total_from acc items) (\<lambda>t. Inr (PDec t))"
proof (induction items arbitrary: acc ds)
  case Nil
  then show ?case by (simp add: bindE_def)
next
  case (Cons item items)
  from Cons.prems obtain v d ds' where v: "getitem item ''total_amount'' = Inr v"
    and d: "Decimal v = Inr d" and rest: "total_amounts items = Inr ds'" and ds: "ds = d # ds'"
    by (auto simp: bindE_def split: sum.splits)
  show ?case
  proof (cases "dec_add acc d")
    case (Inl e)
    with v d ds show ?thesis by (simp add: bindE_def)
  next
    case (Inr a)
    with v d ds Cons.IH [OF rest, of a] show ?thesis by (simp add: bindE_def)
  qed
qed

lemma spec_total_from_amounts:
  "spec_total_from acc items = Inr t \<Longrightarrow> \<exists>ds. total_amounts items = Inr ds"
proof (induction items arbitrary: acc)
  case Nil
  show ?case by simp
next
  case (Cons item items)
  from Cons.prems obtain v d a where v: "getitem item ''total_amount'' = Inr v"
    and d: "Decimal v = Inr d" and a: "dec_add acc d = Inr a"
    and rest: "spec_total_from a items = Inr t"
    by (auto simp: bindE_def split: sum.splits)
  from Cons.IH [OF rest] obtain ds where "total_amounts items = Inr ds" by blast
  with v d show ?case by (simp add: bindE_def)
qed

lemma total_amounts_nth:
  "total_amounts items = Inr ds \<Longrightarrow>
   length ds = length items \<and>
   (\<forall>i < length items. \<exists>v. (items ! i) ''total_amount'' = Some v \<and> Decimal v = Inr (ds ! i))"
proof (induction items arbitrary: ds)
  case Nil
  then show ?case by simp
next
  case (Cons item items)
  from Cons.prems obtain v d ds' where v: "item ''total_amount'' = Some v"
    and d: "Decimal v = Inr d" and rest: "total_amounts items = Inr ds'" and ds: "ds = d # ds'"
    by (auto simp: bindE_def getitem_def split: sum.splits option.splits)
  from Cons.IH [OF rest] have len: "length ds' = length items"
    and nth: "\<forall>i < length items. \<exists>v. (items ! i) ''total_amount'' = Some v \<and> Decimal v = Inr (ds' ! i)"
    by simp_all
  show ?case
  proof (intro conjI allI impI)
    show "length ds = length (item # items)" using len ds by simp
  next
    fix i assume "i < length (item # items)"
    then show "\<exists>v. ((item # items) ! i) ''total_amount'' = Some v \<and> Decimal v = Inr (ds ! i)"
      using v d nth ds by (cases i) simp_all
  qed
qed

lemma py_sum_exact:
  "sums_in_context acc ds \<Longrightarrow>
   \<exists>t. py_sum (PDec acc) ds = Inr (PDec t) \<and> dec_val t = dec_val acc + sum_list (map dec_val ds)"
proof (induction acc ds rule: sums_in_context.induct)
  case (1 acc)
  show ?case by simp
next
  case (2 s c e s' c' e' ds)
  from "2.prems" have ic: "in_context (add_exact s c e s' c' e')"
    and rest: "sums_in_context (add_exact s c e s' c' e') ds" by simp_all
  have step: "dec_add (Fin s c e) (Fin s' c' e') = Inr (add_exact s c e s' c' e')"
    using dec_fix_in_context [OF ic] by (simp del: dec_fix.simps)
  from "2.IH" [OF rest] obtain t where
    t: "py_sum (PDec (add_exact s c e s' c' e')) ds = Inr (PDec t)"
    and val: "dec_val t = dec_val (add_exact s c e s' c' e') + sum_list (map dec_val ds)"
    by blast
  have "py_sum (PDec (Fin s c e)) (Fin s' c' e' # ds) = Inr (PDec t)"
    using t by (simp del: dec_add.simps add: step bindE_def)
  moreover have "dec_val t = dec_val (Fin s c e) + sum_list (map dec_val (Fin s' c' e' # ds))"
    using val by (simp only: dec_val_add_exact list.map sum_list.Cons add.assoc)
  ultimately show ?case by blast
qed simp_all


lemma sample_sum_0:
  "dec_add (Fin False 5865289999999999982077669714 (- 25)) (Decimal_int 0) = Inr (Fin False 5865289999999999982077669714 (- 25))"
  by (simp del: dec_fix.simps add: Decimal_int_def add_exact_def dec_fix_small)

lemma sample_sum_1:
  "dec_add (Fin False 5865289999999999982077669714 (- 25)) (Fin False 3374639999999999989688248547 (- 26)) = Inr (Fin False 6202753999999999981046494569 (- 25))"
proof -
  have r: "round_half_even 62027539999999999810464945687 (Suc 0) = 6202753999999999981046494569"
    by (simp add: round_half_even_def)
  have "dec_add (Fin False 5865289999999999982077669714 (- 25)) (Fin False 3374639999999999989688248547 (- 26)) = dec_fix (Fin False 62027539999999999810464945687 (- 26))"
    by (simp del: dec_fix.simps add: add_exact_def)
  also have "\<dots> = Inr (Fin False 6202753999999999981046494569 (- 25))"
    using dec_fix_round [of 0 62027539999999999810464945687 "- 26" False]
    unfolding r by (simp add: prec_def Etiny_def Etop_def Emin_def Emax_def)
  finally show ?thesis .
qed

lemma sample_sum_2:
  "dec_add (Fin False 6202753999999999981046494569 (- 25)) (Fin False 5865289999999999982077669714 (- 25)) = Inr (Fin False 1206804399999999996312416428 (- 24))"
proof -
  have r: "round_half_even 12068043999999999963124164283 (Suc 0) = 1206804399999999996312416428"
    by (simp add: round_half_even_def)
  have "dec_add (Fin False 6202753999999999981046494569 (- 25)) (Fin False 5865289999999999982077669714 (- 25)) = dec_fix (Fin False 12068043999999999963124164283 (- 25))"
    by (simp del: dec_fix.simps add: add_exact_def)
  also have "\<dots> = Inr (Fin False 1206804399999999996312416428 (- 24))"
    using dec_fix_round [of 0 12068043999999999963124164283 "- 25" False]
    unfolding r by (simp add: prec_def Etiny_def Etop_def Emin_def Emax_def)
  finally show ?thesis .
qed

lemma sample_sum_3:
  "dec_add (Fin False 1206804399999999996312416428 (- 24)) (Fin False 3374639999999999989688248547 (- 26)) = Inr (Fin False 1240550799999999996209298913 (- 24))"
proof -
  have r: "round_half_even 124055079999999999620929891347 (Suc 1) = 1240550799999999996209298913"
    by (simp add: round_half_even_def)
  have "dec_add (Fin False 1206804399999999996312416428 (- 24)) (Fin False 3374639999999999989688248547 (- 26)) = dec_fix (Fin False 124055079999999999620929891347 (- 26))"
    by (simp del: dec_fix.simps add: add_exact_def)
  also have "\<dots> = Inr (Fin False 1240550799999999996209298913 (- 24))"
    using dec_fix_round [of 1 124055079999999999620929891347 "- 26" False]
    unfolding r by (simp add: prec_def Etiny_def Etop_def Emin_def Emax_def)
  finally show ?thesis .
qed

lemma sample_total_amounts:
  "total_amounts (item_details (fst (compute_item_details sample_invoice))) =
   Inr [Fin False 5865289999999999982077669714 (- 25), Fin False 3374639999999999989688248547 (- 26),
        Fin False 5865289999999999982077669714 (- 25), Fin False 3374639999999999989688248547 (- 26)]"
  by (simp add: compute_item_details_items sample_invoice_def sample_item_details_def
      compute_item_sample_538_10 [OF same_state_and_city_sample]
      compute_item_sample_30_96 [OF same_state_and_city_sample] getitem_def bindE_def)

lemma sample_grand_total:
  "create_total_row_total_amount (fst (compute_item_details sample_invoice)) =
   Inr (PDec (Fin False 1240550799999999996209298913 (- 24)))"
  by (simp del: dec_add.simps
      add: create_total_row_total_amount_def sample_total_amounts bindE_def
        sample_sum_0 sample_sum_1 sample_sum_2 sample_sum_3)

text \<open>
  C3. The grand total summed for the totals row and the grand total summed for the
  amount-in-words line are the same value, for every state of the generator, and that
  value is the sum of \<^verbatim>\<open>total_amount\<close> over all items: whenever a site returns, it
  returns the specification's total of the items in list order (the int 0 for no items),
  and whenever that total exists, both sites return it; the summed list holds the
  \<^verbatim>\<open>Decimal\<close> of each item's \<^verbatim>\<open>total_amount\<close>, in order; where no addition needs
  rounding the result is the exact sum of these values; and after a run of
  \<^verbatim>\<open>_compute_item_details\<close> that raised nothing, the summed list is the list of the
  stored totals.
\<close>

theorem grand_total_same_at_both_sites:
  "create_total_row_total_amount self = create_amount_in_words_total_amount self
   \<and> (create_total_row_total_amount self = Inr r \<longrightarrow>
        (if item_details self = [] then r = PInt 0
         else \<exists>t. r = PDec t \<and> spec_total (item_details self) = Inr t))
   \<and> (item_details self \<noteq> [] \<and> spec_total (item_details self) = Inr t \<longrightarrow>
        create_total_row_total_amount self = Inr (PDec t)
        \<and> create_amount_in_words_total_amount self = Inr (PDec t))
   \<and> (total_amounts (item_details self) = Inr ds \<longrightarrow>
        length ds = length (item_details self)
        \<and> (\<forall>i < length (item_details self).
              \<exists>v. (item_details self ! i) ''total_amount'' = Some v \<and> Decimal v = Inr (ds ! i)))
   \<and> (total_amounts (item_details self) = Inr ds \<and> ds \<noteq> []
        \<and> sums_in_context (Decimal_int 0) ds \<longrightarrow>
        (\<exists>t. create_total_row_total_amount self = Inr (PDec t)
           \<and> dec_val t = sum_list (map dec_val ds)))
   \<and> (snd (compute_item_details self) = None \<longrightarrow>
        (\<exists>ds. total_amounts (item_details (fst (compute_item_details self))) = Inr ds
           \<and> (\<forall>i < length (item_details self).
                 (item_details (fst (compute_item_details self)) ! i) ''total_amount''
                   = Some (PDec (ds ! i)))))"
proof -
  have same: "create_total_row_total_amount self = create_amount_in_words_total_amount self"
    by (simp add: create_total_row_total_amount_def create_amount_in_words_total_amount_def)
  have nonempty: "create_total_row_total_amount self =
      bindE (spec_total (item_details self)) (\<lambda>t. Inr (PDec t))"
    if ne: "item_details self \<noteq> []" and ta: "total_amounts (item_details self) = Inr ds'" for ds'
  proof -
    from ne ta have "ds' \<noteq> []"
      by (cases "item_details self") (auto simp: bindE_def split: sum.splits)
    then have "py_sum (PInt 0) ds' = py_sum (PDec (Decimal_int 0)) ds'"
      by (rule py_sum_start)
    also have "\<dots> = bindE (spec_total (item_details self)) (\<lambda>t. Inr (PDec t))"
      unfolding spec_total_def using ta by (rule py_sum_spec_total_from)
    finally show ?thesis
      using ta by (simp add: create_total_row_total_amount_def bindE_def)
  qed
  have forward: "if item_details self = [] then r = PInt 0
         else \<exists>t. r = PDec t \<and> spec_total (item_details self) = Inr t"
    if r: "create_total_row_total_amount self = Inr r"
  proof (cases "item_details self = []")
    case True
    with r show ?thesis by (simp add: create_total_row_total_amount_def bindE_def)
  next
    case False
    from r obtain ds' where ta: "total_amounts (item_details self) = Inr ds'"
      by (cases "total_amounts (item_details self)")
        (simp_all add: create_total_row_total_amount_def bindE_def)
    from nonempty [OF False ta] r
    have "bindE (spec_total (item_details self)) (\<lambda>t. Inr (PDec t)) = Inr r" by simp
    then have "\<exists>t. r = PDec t \<and> spec_total (item_details self) = Inr t"
      by (cases "spec_total (item_details self)") (auto simp: bindE_def)
    with False show ?thesis by simp
  qed
  have backward: "create_total_row_total_amount self = Inr (PDec t)"
    if ne: "item_details self \<noteq> []" and st: "spec_total (item_details self) = Inr t"
  proof -
    from st obtain ds' where ta: "total_amounts (item_details self) = Inr ds'"
      unfolding spec_total_def by (blast dest: spec_total_from_amounts)
    from nonempty [OF ne ta] st show ?thesis by (simp add: bindE_def)
  qed
  have exact: "\<exists>t. create_total_row_total_amount self = Inr (PDec t)
           \<and> dec_val t = sum_list (map dec_val ds)"
    if ta: "total_amounts (item_details self) = Inr ds" and ne: "ds \<noteq> []"
      and ok: "sums_in_context (Decimal_int 0) ds"
  proof -
    from py_sum_exact [OF ok] obtain t where
      t: "py_sum (PDec (Decimal_int 0)) ds = Inr (PDec t)"
      and val: "dec_val t = dec_val (Decimal_int 0) + sum_list (map dec_val ds)" by blast
    have "create_total_row_total_amount self = Inr (PDec t)"
      using ta t py_sum_start [OF ne] by (simp add: create_total_row_total_amount_def bindE_def)
    moreover have "dec_val t = sum_list (map dec_val ds)"
      using val by (simp add: Decimal_int_def)
    ultimately show ?thesis by blast
  qed
  have computed: "\<exists>ds. total_amounts (item_details (fst (compute_item_details self))) = Inr ds
           \<and> (\<forall>i < length (item_details self).
                 (item_details (fst (compute_item_details self)) ! i) ''total_amount''
                   = Some (PDec (ds ! i)))"
    if run: "snd (compute_item_details self) = None"
  proof -
    let ?b = "billing_details self" and ?s = "shipping_details self"
    let ?items = "item_details (fst (compute_item_details self))"
    from run have ok: "snd (compute_items ?b ?s (item_details self)) = None"
      by (simp add: compute_item_details_outcome)
    have items: "?items = map (\<lambda>item. fst (compute_item ?b ?s item)) (item_details self)"
      using compute_items_success [OF ok] by (simp add: compute_item_details_items)
    have each: "\<exists>t. item' ''total_amount'' = Some (PDec t)" if "item' \<in> set ?items" for item'
    proof -
      from that obtain item where it: "item \<in> set (item_details self)"
        and eq: "item' = fst (compute_item ?b ?s item)"
        unfolding items by auto
      from compute_items_success_each [OF ok it] show ?thesis
        unfolding eq by (rule compute_item_success_total_amount)
    qed
    from total_amounts_total [of ?items] each obtain ds' where
      ta: "total_amounts ?items = Inr ds'" by blast
    have len: "length ?items = length (item_details self)" by (simp add: items)
    have "(?items ! i) ''total_amount'' = Some (PDec (ds' ! i))"
      if i: "i < length (item_details self)" for i
    proof -
      from i len have i': "i < length ?items" by simp
      with total_amounts_nth [OF ta] obtain v where
        v: "(?items ! i) ''total_amount'' = Some v" and d: "Decimal v = Inr (ds' ! i)" by blast
      from i' each [of "?items ! i"] obtain t' where
        t': "(?items ! i) ''total_amount'' = Some (PDec t')"
        by auto
      with v have "v = PDec t'" by simp
      with d have "ds' ! i = t'" by simp
      with t' show ?thesis by simp
    qed
    with ta show ?thesis by blast
  qed
  from same forward backward total_amounts_nth exact computed show ?thesis
    by (intro conjI impI) (simp_all only:, blast+)
qed

text \<open>
  On the sample invoice both sites give 1240.550799999999996209298913, the
  specification's total of the four stored totals; and two items with the totals 586.53
  and 33.75 give exactly 620.28.
\<close>

theorem grand_total_same_at_both_sites_witness:
  "create_total_row_total_amount (fst (compute_item_details sample_invoice))
     = Inr (PDec (Fin False 1240550799999999996209298913 (- 24)))
   \<and> create_amount_in_words_total_amount (fst (compute_item_details sample_invoice))
     = Inr (PDec (Fin False 1240550799999999996209298913 (- 24)))
   \<and> spec_total (item_details (fst (compute_item_details sample_invoice)))
     = Inr (Fin False 1240550799999999996209298913 (- 24))
   \<and> (\<exists>ds. total_amounts (item_details (fst (compute_item_details sample_invoice))) = Inr ds
          \<and> length ds = 4
          \<and> (item_details (fst (compute_item_details sample_invoice)) ! 1) ''total_amount''
              = Some (PDec (ds ! 1)))
   \<and> (\<exists>t. create_total_row_total_amount
            (sample_invoice\<lparr>item_details :=
               [[''total_amount'' \<mapsto> PDec (Fin False 58653 (- 2))],
                [''total_amount'' \<mapsto> PDec (Fin False 3375 (- 2))]]\<rparr>) = Inr (PDec t)
          \<and> dec_val t = 62028 / 100)"
proof -
  let ?S = "fst (compute_item_details sample_invoice)"
  let ?T = "Fin False 1240550799999999996209298913 (- 24)"
  let ?X = "sample_invoice\<lparr>item_details :=
               [[''total_amount'' \<mapsto> PDec (Fin False 58653 (- 2))],
                [''total_amount'' \<mapsto> PDec (Fin False 3375 (- 2))]]\<rparr>"
  let ?xs = "[Fin False 58653 (- 2), Fin False 3375 (- 2)]"
  have a: "create_total_row_total_amount ?S = Inr (PDec ?T)"
    by (rule sample_grand_total)
  have b: "create_amount_in_words_total_amount ?S = Inr (PDec ?T)"
    using grand_total_same_at_both_sites [of ?S, THEN conjunct1] a by simp
  have len: "length (item_details ?S) = 4"
    unfolding compute_item_details_items compute_items_length
    by (simp add: sample_invoice_def sample_item_details_def)
  then have ne: "item_details ?S \<noteq> []" by auto
  have "if item_details ?S = [] then PDec ?T = PInt 0
      else \<exists>t. PDec ?T = PDec t \<and> spec_total (item_details ?S) = Inr t"
    using grand_total_same_at_both_sites
      [of ?S "PDec ?T", THEN conjunct2, THEN conjunct1, THEN mp, OF a] .
  with ne have c: "spec_total (item_details ?S) = Inr ?T" by auto
  have ok: "snd (compute_item_details sample_invoice) = None"
    using compute_items_sample [OF same_state_and_city_sample]
    by (simp add: compute_item_details_outcome sample_invoice_def)
  have four: "length (item_details sample_invoice) = 4"
    by (simp add: sample_invoice_def sample_item_details_def)
  from grand_total_same_at_both_sites
    [of sample_invoice, THEN conjunct2, THEN conjunct2, THEN conjunct2, THEN conjunct2,
      THEN conjunct2, THEN mp, OF ok]
  obtain ds where ta: "total_amounts (item_details ?S) = Inr ds"
    and nth: "\<forall>i < length (item_details sample_invoice).
        (item_details ?S ! i) ''total_amount'' = Some (PDec (ds ! i))"
    by blast
  have "length ds = length (item_details ?S)"
    using grand_total_same_at_both_sites
      [of ?S _ _ ds, THEN conjunct2, THEN conjunct2, THEN conjunct2, THEN conjunct1, THEN mp,
        OF ta, THEN conjunct1] .
  with len have l4: "length ds = 4" by simp
  have "1 < length (item_details sample_invoice)" using four by simp
  with nth have "(item_details ?S ! 1) ''total_amount'' = Some (PDec (ds ! 1))" by blast
  with ta l4 have d: "\<exists>ds. total_amounts (item_details ?S) = Inr ds \<and> length ds = 4
      \<and> (item_details ?S ! 1) ''total_amount'' = Some (PDec (ds ! 1))"
    by blast
  have tx: "total_amounts (item_details ?X) = Inr ?xs"
    by (simp add: getitem_def bindE_def)
  have sx: "sums_in_context (Decimal_int 0) ?xs"
    by (simp del: in_context.simps add: Decimal_int_def add_exact_def in_context_small)
  have hyp: "total_amounts (item_details ?X) = Inr ?xs \<and> ?xs \<noteq> []
      \<and> sums_in_context (Decimal_int 0) ?xs"
    using tx sx by blast
  have "\<exists>t. create_total_row_total_amount ?X = Inr (PDec t)
      \<and> dec_val t = sum_list (map dec_val ?xs)"
    using grand_total_same_at_both_sites
      [of ?X _ _ ?xs, THEN conjunct2, THEN conjunct2, THEN conjunct2, THEN conjunct2,
        THEN conjunct1, THEN mp, OF hyp] .
  then obtain t where t: "create_total_row_total_amount ?X = Inr (PDec t)"
    and v: "dec_val t = sum_list (map dec_val ?xs)" by blast
  have "sum_list (map dec_val ?xs) = 62028 / 100"
    by (simp add: power_int_minus)
  with t v have e: "\<exists>t. create_total_row_total_amount ?X = Inr (PDec t) \<and> dec_val t = 62028 / 100"
    by auto
  from a b c d e show ?thesis by (intro conjI)
qed

end
